theory Spec2Isabelle
  imports Main "HOL-Library.Char_ord" "HOL-Library.List_Lexorder" "HOL-Library.Sublist"
begin

section \<open>Python values\<close>

text \<open>
  A Python \<open>str\<close> is modelled as a \<^typ>\<open>string\<close> holding its UTF-8 bytes (a lone
  surrogate encoded like any other code point). Comparison is lexicographic on the bytes,
  which agrees with Python's comparison by code point. What the interpreter and the C
  library decide from tables of their own is not fixed here but taken as a parameter
  (the record \<open>library\<close> below): \<open>str.lower\<close>, \<open>str.strip\<close>, the grammar
  of \<open>datetime.fromisoformat\<close>, and whether \<open>strftime\<close> pads \<open>%Y\<close>. Every
  property is proved for every such library.
\<close>

definition digit_char :: "nat \<Rightarrow> char" where
  "digit_char n = (''0123456789'' ! (n mod 10))"

text \<open>\<open>str(n)\<close> for a non-negative integer: its decimal digits, no leading zero.\<close>

fun str_nat :: "nat \<Rightarrow> string" where
  "str_nat n = (if n < 10 then [digit_char n] else str_nat (n div 10) @ [digit_char n])"

declare str_nat.simps [simp del]

text \<open>\<open>str(i)\<close> for a Python \<open>int\<close>.\<close>

definition str_int :: "int \<Rightarrow> string" where
  "str_int i = (if i < 0 then CHR ''-'' # str_nat (nat (- i)) else str_nat (nat i))"

text \<open>Zero padding on the left to a minimal width, as \<open>%02d\<close> does.\<close>

definition zpad :: "nat \<Rightarrow> string \<Rightarrow> string" where
  "zpad w s = replicate (w - length s) (CHR ''0'') @ s"

text \<open>\<open>sep.join(parts)\<close>.\<close>

fun join :: "string \<Rightarrow> string list \<Rightarrow> string" where
  "join sep [] = []"
| "join sep [x] = x"
| "join sep (x # y # ys) = x @ sep @ join sep (y # ys)"

text \<open>\<open>s.split(c)\<close> for a one-character separator: always at least one piece.\<close>

fun split :: "char \<Rightarrow> string \<Rightarrow> string list" where
  "split c [] = [[]]"
| "split c (x # xs) =
     (if x = c then [] # split c xs
      else (case split c xs of [] \<Rightarrow> [[x]] | p # ps \<Rightarrow> (x # p) # ps))"

text \<open>
  The exceptions that the modelled code can raise. All of them are subclasses of
  \<open>Exception\<close>, which is what \<open>archive_recording\<close> catches.
\<close>

datatype error =
    ValueError     \<comment> \<open>\<open>datetime.fromisoformat\<close> on a string it rejects; \<open>int\<close> of a NaN; a bad repository path; a remote that does not exist\<close>
  | TypeError      \<comment> \<open>comparing an offset-naive with an offset-aware \<open>datetime\<close>; a detached \<open>HEAD\<close>\<close>
  | OverflowError  \<comment> \<open>\<open>int\<close> of an infinite \<open>float\<close>\<close>
  | OSError        \<comment> \<open>\<open>iterdir\<close> on a path that cannot be listed\<close>
  | StoreError     \<comment> \<open>\<open>sqlite3.Error\<close>, or the \<open>OSError\<close> of creating the state directory\<close>
  | CommitFailed   \<comment> \<open>\<open>Exception("Failed to commit recording")\<close>\<close>


section \<open>The \<open>datetime\<close> library\<close>

text \<open>
  \<open>datetime.datetime\<close> values: the calendar fields and the UTC offset in microseconds
  (\<open>None\<close> for an offset-naive value).
\<close>

record py_datetime =
  year :: nat
  month :: nat
  day :: nat
  hour :: nat
  minute :: nat
  second :: nat
  microsecond :: nat
  tzoffset :: "int option"

definition is_leap :: "nat \<Rightarrow> bool" where
  "is_leap y = (y mod 4 = 0 \<and> (y mod 100 \<noteq> 0 \<or> y mod 400 = 0))"

definition days_in_month :: "nat \<Rightarrow> nat \<Rightarrow> nat" where
  "days_in_month y m =
     (if m = 2 then (if is_leap y then 29 else 28)
      else if m = 4 \<or> m = 6 \<or> m = 9 \<or> m = 11 then 30 else 31)"

text \<open>
  The constructor \<open>datetime(y, m, d, H, M, S, us, tzinfo)\<close> with its range checks; a
  fixed offset lies strictly between minus and plus 24 hours.
\<close>

definition datetime_new ::
  "nat \<Rightarrow> nat \<Rightarrow> nat \<Rightarrow> nat \<Rightarrow> nat \<Rightarrow> nat \<Rightarrow> nat \<Rightarrow> int option \<Rightarrow> py_datetime option" where
  "datetime_new y m d H M S us tz =
     (if 1 \<le> y \<and> y \<le> 9999 \<and> 1 \<le> m \<and> m \<le> 12 \<and> 1 \<le> d \<and> d \<le> days_in_month y m
         \<and> H \<le> 23 \<and> M \<le> 59 \<and> S \<le> 59 \<and> us \<le> 999999
         \<and> (case tz of None \<Rightarrow> True
             | Some off \<Rightarrow> - 86400000000 < off \<and> off < 86400000000)
      then Some \<lparr>year = y, month = m, day = d, hour = H, minute = M, second = S,
                 microsecond = us, tzoffset = tz\<rparr>
      else None)"

text \<open>
  The part of Python and of the C library that the program relies on and that differs
  between versions and platforms. \<open>parse_isoformat\<close> is the grammar of
  \<open>datetime.fromisoformat\<close>: the fields it reads from a string, \<open>None\<close> where it
  rejects the string. \<open>lower\<close> and \<open>strip\<close> are \<open>str.lower\<close> and \<open>str.strip\<close>.
  \<open>pad_year\<close> tells whether \<open>strftime\<close> writes \<open>%Y\<close> with at least four digits
  (it does not with glibc, where year 5 is written \<open>5\<close>).
\<close>

record library =
  parse_isoformat :: "string \<Rightarrow> py_datetime option"
  lower :: "string \<Rightarrow> string"
  strip :: "string \<Rightarrow> string"
  pad_year :: bool

text \<open>
  \<open>datetime.fromisoformat\<close>: the fields that the grammar reads, passed through the
  constructor. \<open>None\<close> stands for the \<open>ValueError\<close> of the library.
\<close>

definition fromisoformat :: "library \<Rightarrow> string \<Rightarrow> py_datetime option" where
  "fromisoformat lib s =
     (case parse_isoformat lib s of
        None \<Rightarrow> None
      | Some c \<Rightarrow>
          datetime_new (year c) (month c) (day c) (hour c) (minute c) (second c)
            (microsecond c) (tzoffset c))"

text \<open>
  \<open>strftime\<close>: the directives \<open>%Y %m %d %H %M %S\<close>; every other character is copied.
  \<open>%m %d %H %M %S\<close> are two digits; \<open>%Y\<close> is the year in decimal, padded to four
  digits where the platform does so.
\<close>

definition directive :: "library \<Rightarrow> py_datetime \<Rightarrow> char \<Rightarrow> string" where
  "directive lib dt c =
     (if c = CHR ''Y'' then
        (if pad_year lib then zpad 4 (str_nat (year dt)) else str_nat (year dt))
      else if c = CHR ''m'' then zpad 2 (str_nat (month dt))
      else if c = CHR ''d'' then zpad 2 (str_nat (day dt))
      else if c = CHR ''H'' then zpad 2 (str_nat (hour dt))
      else if c = CHR ''M'' then zpad 2 (str_nat (minute dt))
      else if c = CHR ''S'' then zpad 2 (str_nat (second dt))
      else [CHR ''%'', c])"

fun strftime :: "library \<Rightarrow> py_datetime \<Rightarrow> string \<Rightarrow> string" where
  "strftime lib dt [] = []"
| "strftime lib dt [c] = [c]"
| "strftime lib dt (c # d # cs) =
     (if c = CHR ''%'' then directive lib dt d @ strftime lib dt cs
      else c # strftime lib dt (d # cs))"

text \<open>
  \<open>dt.isoformat()\<close>, which formats the fields itself (\<open>%04d-%02d-%02dT%02d:%02d:%02d\<close>):
  microseconds only when non-zero, the offset only when aware, the seconds of the offset
  only when it has any.
\<close>

definition format_offset :: "int \<Rightarrow> string" where
  "format_offset off =
     (let a = nat \<bar>off\<bar>;
          hh = a div 3600000000;
          mm = a div 60000000 mod 60;
          ss = a div 1000000 mod 60;
          us = a mod 1000000
      in (if off < 0 then ''-'' else ''+'') @ zpad 2 (str_nat hh) @ '':'' @ zpad 2 (str_nat mm)
         @ (if ss \<noteq> 0 \<or> us \<noteq> 0 then '':'' @ zpad 2 (str_nat ss) else [])
         @ (if us \<noteq> 0 then ''.'' @ zpad 6 (str_nat us) else []))"

definition isoformat :: "py_datetime \<Rightarrow> string" where
  "isoformat dt =
     zpad 4 (str_nat (year dt)) @ ''-'' @ zpad 2 (str_nat (month dt)) @ ''-''
     @ zpad 2 (str_nat (day dt)) @ ''T'' @ zpad 2 (str_nat (hour dt)) @ '':''
     @ zpad 2 (str_nat (minute dt)) @ '':'' @ zpad 2 (str_nat (second dt))
     @ (if microsecond dt = 0 then [] else CHR ''.'' # zpad 6 (str_nat (microsecond dt)))
     @ (case tzoffset dt of None \<Rightarrow> [] | Some off \<Rightarrow> format_offset off)"

text \<open>
  Comparison \<open>a >= b\<close> of two \<open>datetime\<close> values: by calendar fields when both are naive,
  by UTC instant when both are aware, \<open>TypeError\<close> for one of each.
\<close>

definition days_before_year :: "nat \<Rightarrow> nat" where
  "days_before_year y = (y - 1) * 365 + (y - 1) div 4 - (y - 1) div 100 + (y - 1) div 400"

definition days_before_month :: "nat \<Rightarrow> nat \<Rightarrow> nat" where
  "days_before_month y m = sum_list (map (days_in_month y) [1..<m])"

definition toordinal :: "py_datetime \<Rightarrow> nat" where
  "toordinal dt = days_before_year (year dt) + days_before_month (year dt) (month dt) + day dt"

definition utc_microseconds :: "py_datetime \<Rightarrow> int \<Rightarrow> int" where
  "utc_microseconds dt off =
     (((int (toordinal dt) * 24 + int (hour dt)) * 60 + int (minute dt)) * 60
        + int (second dt)) * 1000000 + int (microsecond dt) - off"

definition calendar_fields :: "py_datetime \<Rightarrow> nat list" where
  "calendar_fields dt = [year dt, month dt, day dt, hour dt, minute dt, second dt, microsecond dt]"

definition datetime_ge :: "py_datetime \<Rightarrow> py_datetime \<Rightarrow> error + bool" where
  "datetime_ge a b =
     (case (tzoffset a, tzoffset b) of
        (None, None) \<Rightarrow> Inr (calendar_fields b \<le> calendar_fields a)
      | (Some oa, Some ob) \<Rightarrow> Inr (utc_microseconds b ob \<le> utc_microseconds a oa)
      | _ \<Rightarrow> Inl TypeError)"


section \<open>models.py\<close>

text \<open>
  The \<open>float\<close> offsets of a segment are kept abstract (type \<open>'f\<close>); the function that
  prints them, \<open>_format_timestamp\<close>, is a parameter of the formatter.
\<close>

record 'f segment =
  seg_text :: string
  seg_start :: 'f
  seg_end :: 'f

record 'f recording =
  source_dir :: string
  datetime :: string
  result :: string
  rawResult :: string
  duration :: int
  segments :: "'f segment list"
  modeName :: string
  modelName :: string
  languageSelected :: string
  systemAudioEnabled :: bool
  appVersion :: string
  languageModelName :: "string option"
  llmResult :: "string option"

text \<open>\<open>ArchiveResult\<close>; the \<open>error\<close> field holds the exception whose text the code stores.\<close>

record archive_result =
  success :: bool
  res_source_dir :: string
  error :: "error option"
  file_path :: "string option"
  commit_sha :: "string option"

record archive_summary =
  total_recordings :: nat
  archived_count :: nat
  failed_count :: nat
  skipped_count :: nat
  results :: "archive_result list"


section \<open>The world outside the program\<close>

text \<open>
  The program acts on a directory of recordings, a SQLite file, a git working copy and the
  clock. The state that it can change is a \<open>world\<close>: the database (\<open>None\<close> while the
  file does not exist), the commits it has made, how many times git was asked to commit and
  the clock was read, and the trace of every effect in the order the effects happened.

  What the program cannot change is an \<open>env\<close>. It holds the library; the recordings
  directory; whether the repository path holds a repository; the exception, if any, that
  escapes from the sync and from the push (both catch \<open>GitCommandError\<close> only, so the
  \<open>ValueError\<close> of a remote that does not exist and the \<open>TypeError\<close> of a detached
  \<open>HEAD\<close> escape); the outcome of the \<open>n\<close>-th commit attempt (\<open>None\<close> when it
  fails); which operations of the state store fail; the \<open>n\<close>-th reading of the clock; and
  \<open>_format_timestamp\<close>, which raises where \<open>int(seconds)\<close> does (\<open>ValueError\<close> for
  a NaN, \<open>OverflowError\<close> for an infinity).
\<close>

text \<open>
  What \<open>iterdir\<close> finds under the recordings path: for every entry its name and
  whether it is a plain file, a directory without \<open>meta.json\<close>, a directory whose
  \<open>meta.json\<close> fails to load as a \<open>Recording\<close>, or one that loads. The order of the
  list is the order in which the entries are met. The path itself may be missing, or exist
  without being a directory that can be listed.
\<close>

datatype 'f dir_entry =
    File
  | DirNoMeta
  | DirBadMeta
  | DirMeta "'f recording"

datatype 'f root_dir =
    Missing
  | Unlistable
  | Directory "(string \<times> 'f dir_entry) list"

record archive_row =
  row_datetime :: string
  row_mode :: string
  row_duration_ms :: int
  row_file_path :: string
  row_commit_sha :: "string option"
  row_archived_at :: string

record run_row =
  run_at :: string
  recordings_processed :: nat
  recordings_archived :: nat
  recordings_failed :: nat

record db =
  archived_recordings :: "string \<rightharpoonup> archive_row"
  archive_runs :: "run_row list"

datatype event =
    InitDb                                   \<comment> \<open>\<open>CREATE TABLE IF NOT EXISTS\<close>, twice, and commit\<close>
  | Pull                                     \<comment> \<open>the sync ran to its end: checkout of the default branch and pull, refused or not\<close>
  | Commit string string string string       \<comment> \<open>path, content, message, identifier of a commit made\<close>
  | MarkArchived string string "string option" \<comment> \<open>source directory, path, commit identifier\<close>
  | Push                                     \<comment> \<open>the push ran to its end, refused or not\<close>
  | RunRecorded nat nat nat

record world =
  state_db :: "db option"
  commits :: "(string \<times> string \<times> string \<times> string) list"
  git_calls :: nat
  ticks :: nat
  trace :: "event list"

text \<open>The operations of the state store, each of which may fail.\<close>

datatype store_op =
    OpInit                    \<comment> \<open>\<open>StateTracker.__init__\<close>\<close>
  | OpIsArchived string       \<comment> \<open>\<open>is_archived\<close> of a source directory\<close>
  | OpMarkArchived string     \<comment> \<open>\<open>mark_archived\<close> of a source directory\<close>
  | OpGetLastRun              \<comment> \<open>\<open>get_last_run_timestamp\<close>\<close>
  | OpUpdateLastRun           \<comment> \<open>\<open>update_last_run\<close>\<close>

record 'f env =
  library :: library
  recordings_root :: "'f root_dir"
  repo_valid :: bool
  sync_raises :: "error option"
  commit_outcome :: "nat \<Rightarrow> string option"
  push_raises :: "error option"
  store_fails :: "store_op \<Rightarrow> bool"
  clock :: "nat \<Rightarrow> py_datetime"
  format_timestamp :: "'f \<Rightarrow> error + string"

record config =
  filters_modes :: "string list"
  filters_min_duration_ms :: int


section \<open>markdown_formatter.py\<close>

definition format_duration :: "int \<Rightarrow> string" where
  "format_duration duration_ms =
     (let total_seconds = duration_ms div 1000;
          hours = total_seconds div 3600;
          minutes = (total_seconds mod 3600) div 60;
          seconds = total_seconds mod 60
      in if hours > 0 then str_int hours @ ''h '' @ str_int minutes @ ''m '' @ str_int seconds @ ''s''
         else if minutes > 0 then str_int minutes @ ''m '' @ str_int seconds @ ''s''
         else str_int seconds @ ''s'')"

definition nl :: string where
  "nl = [CHR 0x0A]"

definition dq :: string where
  "dq = [CHR 0x22]"

definition em_dash :: string where
  "em_dash = [CHR 0xE2, CHR 0x80, CHR 0x94]"

definition arrow :: string where
  "arrow = [CHR 0xE2, CHR 0x86, CHR 0x92]"

text \<open>
  \<open>_build_frontmatter\<close>: the list \<open>parts\<close>, where \<open>now\<close> is the reading of
  \<open>datetime.now()\<close>, and the function itself, which reads the clock.
\<close>

definition frontmatter_parts :: "py_datetime \<Rightarrow> 'f recording \<Rightarrow> string list" where
  "frontmatter_parts now rec =
     [''---'',
      ''datetime: '' @ dq @ datetime rec @ dq,
      ''mode: '' @ modeName rec,
      ''duration_ms: '' @ str_int (duration rec),
      ''model: '' @ dq @ modelName rec @ dq]
     @ (case languageModelName rec of
          None \<Rightarrow> []
        | Some l \<Rightarrow> if l \<noteq> [] then [''language_model: '' @ dq @ l @ dq] else [])
     @ [''language: '' @ languageSelected rec,
        ''system_audio: '' @ (if systemAudioEnabled rec then ''true'' else ''false''),
        ''app_version: '' @ dq @ appVersion rec @ dq,
        ''source_dir: '' @ dq @ source_dir rec @ dq,
        ''archived_at: '' @ dq @ isoformat now @ dq,
        ''---'']"

definition build_frontmatter :: "'f env \<Rightarrow> world \<Rightarrow> 'f recording \<Rightarrow> string \<times> world" where
  "build_frontmatter env w rec =
     (join nl (frontmatter_parts (clock env (ticks w)) rec) @ nl, w\<lparr>ticks := ticks w + 1\<rparr>)"

text \<open>The text chosen for the transcription section.\<close>

definition transcription :: "library \<Rightarrow> 'f recording \<Rightarrow> string" where
  "transcription lib rec =
     (if result rec \<noteq> [] then strip lib (result rec) else strip lib (rawResult rec))"

text \<open>
  The lines of the segments section; the loop stops at the first offset that
  \<open>_format_timestamp\<close> cannot print.
\<close>

fun segment_lines :: "('f \<Rightarrow> error + string) \<Rightarrow> 'f segment list \<Rightarrow> error + string list" where
  "segment_lines fmt [] = Inr []"
| "segment_lines fmt (seg # segs) =
     (case fmt (seg_start seg) of
        Inl e \<Rightarrow> Inl e
      | Inr start_s \<Rightarrow>
          (case fmt (seg_end seg) of
             Inl e \<Rightarrow> Inl e
           | Inr end_s \<Rightarrow>
               (case segment_lines fmt segs of
                  Inl e \<Rightarrow> Inl e
                | Inr lines \<Rightarrow>
                    Inr ((''- ['' @ start_s @ '' '' @ arrow @ '' '' @ end_s @ ''] '' @ seg_text seg)
                         # lines))))"

text \<open>
  \<open>_build_body\<close>: the list \<open>parts\<close>, where \<open>dt\<close> is the parsed timestamp, \<open>lines\<close>
  the lines of the segments and \<open>now\<close> the reading of \<open>datetime.now()\<close> for the footer;
  and the function itself, which reads the clock once everything else has been built.
\<close>

definition body_parts ::
  "library \<Rightarrow> py_datetime \<Rightarrow> 'f recording \<Rightarrow> string list \<Rightarrow> py_datetime \<Rightarrow> string list" where
  "body_parts lib dt rec lines now =
     [nl @ ''# Recording '' @ em_dash @ '' '' @ strftime lib dt ''%Y-%m-%d %H:%M'' @ nl,
      ''**Mode**: '' @ modeName rec @ '' | **Duration**: '' @ format_duration (duration rec) @ nl]
     @ (if transcription lib rec \<noteq> []
        then [''## Transcription'' @ nl @ nl @ transcription lib rec @ nl] else [])
     @ (case llmResult rec of
          None \<Rightarrow> []
        | Some l \<Rightarrow> if l \<noteq> [] then [''## Summary'' @ nl @ nl @ l @ nl] else [])
     @ (if segments rec \<noteq> []
        then [''## Segments'' @ nl @ nl @ join nl lines @ nl]
        else [])
     @ [nl @ ''---'' @ nl @ ''*Archived: '' @ strftime lib now ''%Y-%m-%d'' @ ''*'' @ nl]"

definition build_body :: "'f env \<Rightarrow> world \<Rightarrow> 'f recording \<Rightarrow> (error + string) \<times> world" where
  "build_body env w rec =
     (case fromisoformat (library env) (datetime rec) of
        None \<Rightarrow> (Inl ValueError, w)
      | Some dt \<Rightarrow>
          (case segment_lines (format_timestamp env) (segments rec) of
             Inl e \<Rightarrow> (Inl e, w)
           | Inr lines \<Rightarrow>
               (Inr (join nl (body_parts (library env) dt rec lines (clock env (ticks w)))),
                w\<lparr>ticks := ticks w + 1\<rparr>)))"

definition format_recording :: "'f env \<Rightarrow> world \<Rightarrow> 'f recording \<Rightarrow> (error + string) \<times> world" where
  "format_recording env w recording =
     (let (frontmatter, w1) = build_frontmatter env w recording;
          (body, w2) = build_body env w1 recording
      in (case body of Inl e \<Rightarrow> Inl e | Inr b \<Rightarrow> Inr (frontmatter @ b), w2))"

definition compute_file_path :: "library \<Rightarrow> 'f recording \<Rightarrow> error + string" where
  "compute_file_path lib recording =
     (case fromisoformat lib (datetime recording) of
        None \<Rightarrow> Inl ValueError
      | Some dt \<Rightarrow>
          (let year_s = strftime lib dt ''%Y'';
               month_s = strftime lib dt ''%m'';
               filename = strftime lib dt ''%Y-%m-%d-%H-%M-%S'' @ ''.md''
           in Inr (year_s @ ''/'' @ month_s @ ''/'' @ filename)))"


section \<open>scanner.py\<close>

definition load_recordings :: "(string \<times> 'f dir_entry) list \<Rightarrow> 'f recording list" where
  "load_recordings entries =
     concat (map (\<lambda>(name, e). case e of DirMeta meta \<Rightarrow> [meta\<lparr>source_dir := name\<rparr>] | _ \<Rightarrow> [])
                 entries)"

text \<open>The list comprehension of the since filter; it raises where a comparison raises.\<close>

fun filter_since ::
  "library \<Rightarrow> py_datetime \<Rightarrow> 'f recording list \<Rightarrow> error + 'f recording list" where
  "filter_since lib since_dt [] = Inr []"
| "filter_since lib since_dt (r # rs) =
     (case fromisoformat lib (datetime r) of
        None \<Rightarrow> Inl ValueError
      | Some dt \<Rightarrow>
          (case datetime_ge dt since_dt of
             Inl e \<Rightarrow> Inl e
           | Inr keep \<Rightarrow>
               (case filter_since lib since_dt rs of
                  Inl e \<Rightarrow> Inl e
                | Inr rs' \<Rightarrow> Inr (if keep then r # rs' else rs'))))"

definition scan ::
  "library \<Rightarrow> 'f root_dir \<Rightarrow> string list option \<Rightarrow> int \<Rightarrow> string option
     \<Rightarrow> error + 'f recording list" where
  "scan lib root modes min_duration_ms since =
     (case root of
        Missing \<Rightarrow> Inr []
      | Unlistable \<Rightarrow> Inl OSError
      | Directory entries \<Rightarrow>
          (let recordings = load_recordings entries;
               recordings =
                 (if modes \<noteq> None \<and> modes \<noteq> Some [] then
                    (let modes_lower = map (lower lib) (the modes)
                     in filter (\<lambda>r. lower lib (modeName r) \<in> set modes_lower) recordings)
                  else recordings);
               recordings =
                 (if min_duration_ms > 0
                  then filter (\<lambda>r. duration r \<ge> min_duration_ms) recordings
                  else recordings)
           in case (if since \<noteq> None \<and> since \<noteq> Some [] then
                      (case fromisoformat lib (the since) of
                         None \<Rightarrow> Inl ValueError
                       | Some since_dt \<Rightarrow> filter_since lib since_dt recordings)
                    else Inr recordings) of
                Inl e \<Rightarrow> Inl e
              | Inr recordings \<Rightarrow> Inr (sort_key datetime recordings)))"


section \<open>state_tracker.py\<close>

text \<open>
  Every operation opens the database, runs one statement and commits. An operation that
  fails raises, leaves the tables as they were, and is taken to fail before it reads the
  clock.
\<close>

definition empty_db :: db where
  "empty_db = \<lparr>archived_recordings = Map.empty, archive_runs = []\<rparr>"

text \<open>The tables as a query sees them.\<close>

definition tables :: "world \<Rightarrow> db" where
  "tables w = (case state_db w of None \<Rightarrow> empty_db | Some d \<Rightarrow> d)"

text \<open>\<open>StateTracker.__init__\<close> with \<open>_init_db\<close>: the file and both tables exist afterwards.\<close>

definition init_db :: "'f env \<Rightarrow> world \<Rightarrow> error + world" where
  "init_db env w =
     (if store_fails env OpInit then Inl StoreError
      else Inr (w\<lparr>state_db := Some (tables w), trace := trace w @ [InitDb]\<rparr>))"

definition is_archived :: "'f env \<Rightarrow> world \<Rightarrow> string \<Rightarrow> error + bool" where
  "is_archived env w sd =
     (if store_fails env (OpIsArchived sd) then Inl StoreError
      else Inr (archived_recordings (tables w) sd \<noteq> None))"

definition mark_archived ::
  "'f env \<Rightarrow> world \<Rightarrow> string \<Rightarrow> string \<Rightarrow> string \<Rightarrow> int \<Rightarrow> string \<Rightarrow> string option
     \<Rightarrow> error + world" where
  "mark_archived env w sd recording_datetime mode duration_ms path sha =
     (if store_fails env (OpMarkArchived sd) then Inl StoreError
      else
        (let row = \<lparr>row_datetime = recording_datetime, row_mode = mode,
                    row_duration_ms = duration_ms, row_file_path = path, row_commit_sha = sha,
                    row_archived_at = isoformat (clock env (ticks w))\<rparr>;
             d = tables w
         in Inr (w\<lparr>state_db := Some (d\<lparr>archived_recordings := (archived_recordings d)(sd \<mapsto> row)\<rparr>),
                   ticks := ticks w + 1,
                   trace := trace w @ [MarkArchived sd path sha]\<rparr>)))"

text \<open>
  \<open>get_last_run_timestamp\<close>: the greatest \<open>run_at\<close> of the runs table, parsed.
\<close>

definition get_last_run_timestamp :: "'f env \<Rightarrow> world \<Rightarrow> error + py_datetime option" where
  "get_last_run_timestamp env w =
     (if store_fails env OpGetLastRun then Inl StoreError
      else
        (case archive_runs (tables w) of
           [] \<Rightarrow> Inr None
         | r # rs \<Rightarrow>
             (case fromisoformat (library env) (fold max (map run_at rs) (run_at r)) of
                None \<Rightarrow> Inl ValueError
              | Some dt \<Rightarrow> Inr (Some dt))))"

definition update_last_run :: "'f env \<Rightarrow> world \<Rightarrow> nat \<Rightarrow> nat \<Rightarrow> nat \<Rightarrow> error + world" where
  "update_last_run env w processed archived failed =
     (if store_fails env OpUpdateLastRun then Inl StoreError
      else
        (let row = \<lparr>run_at = isoformat (clock env (ticks w)), recordings_processed = processed,
                    recordings_archived = archived, recordings_failed = failed\<rparr>;
             d = tables w
         in Inr (w\<lparr>state_db := Some (d\<lparr>archive_runs := archive_runs d @ [row]\<rparr>),
                   ticks := ticks w + 1,
                   trace := trace w @ [RunRecorded processed archived failed]\<rparr>)))"


section \<open>git_manager.py\<close>

text \<open>
  \<open>ensure_up_to_date\<close> and \<open>push_to_remote\<close> catch \<open>GitCommandError\<close>: a pull or a
  push that git refuses is logged and the call returns. Any other exception leaves the
  call.
\<close>

definition ensure_up_to_date :: "'f env \<Rightarrow> world \<Rightarrow> error + world" where
  "ensure_up_to_date env w =
     (case sync_raises env of
        Some e \<Rightarrow> Inl e
      | None \<Rightarrow> Inr (w\<lparr>trace := trace w @ [Pull]\<rparr>))"

text \<open>
  \<open>write_and_commit\<close> returns the identifier of the commit it made, or \<open>None\<close> after
  catching any failure.
\<close>

definition write_and_commit ::
  "'f env \<Rightarrow> world \<Rightarrow> string \<Rightarrow> string \<Rightarrow> string \<Rightarrow> string option \<times> world" where
  "write_and_commit env w path content message =
     (let w' = w\<lparr>git_calls := git_calls w + 1\<rparr>
      in case commit_outcome env (git_calls w) of
           None \<Rightarrow> (None, w')
         | Some sha \<Rightarrow>
             (Some sha, w'\<lparr>commits := commits w @ [(path, content, message, sha)],
                           trace := trace w @ [Commit path content message sha]\<rparr>))"

definition push_to_remote :: "'f env \<Rightarrow> world \<Rightarrow> error + world" where
  "push_to_remote env w =
     (case push_raises env of
        Some e \<Rightarrow> Inl e
      | None \<Rightarrow> Inr (w\<lparr>trace := trace w @ [Push]\<rparr>))"


section \<open>main.py\<close>

definition failure :: "'f recording \<Rightarrow> error \<Rightarrow> archive_result" where
  "failure recording e =
     \<lparr>success = False, res_source_dir = source_dir recording, error = Some e,
      file_path = None, commit_sha = None\<rparr>"

definition commit_message :: "library \<Rightarrow> 'f recording \<Rightarrow> py_datetime \<Rightarrow> string" where
  "commit_message lib recording dt =
     ''Archive: '' @ modeName recording @ '' recording ''
       @ strftime lib dt ''%Y-%m-%d %H:%M'' @ nl @ nl
     @ ''Source: '' @ source_dir recording @ nl
     @ ''Duration: '' @ str_int (duration recording) @ ''ms'' @ nl"

text \<open>
  \<open>archive_recording\<close>. Every \<open>Inl\<close> below is an exception raised inside the
  \<open>try\<close> block and turned into a failure result by its \<open>except Exception\<close>.
\<close>

definition archive_recording ::
  "'f env \<Rightarrow> 'f recording \<Rightarrow> world \<Rightarrow> bool \<Rightarrow> archive_result \<times> world" where
  "archive_recording env recording w dry_run =
     (case format_recording env w recording of
        (Inl e, w1) \<Rightarrow> (failure recording e, w1)
      | (Inr markdown, w1) \<Rightarrow>
          (case compute_file_path (library env) recording of
             Inl e \<Rightarrow> (failure recording e, w1)
           | Inr path \<Rightarrow>
               if dry_run then
                 (\<lparr>success = True, res_source_dir = source_dir recording, error = None,
                   file_path = Some path, commit_sha = None\<rparr>, w1)
               else
                 (case fromisoformat (library env) (datetime recording) of
                    None \<Rightarrow> (failure recording ValueError, w1)
                  | Some dt \<Rightarrow>
                      (let (sha, w2) =
                             write_and_commit env w1 path markdown
                               (commit_message (library env) recording dt)
                       in if sha = None \<or> sha = Some [] then
                            (failure recording CommitFailed, w2)
                          else
                            (case mark_archived env w2 (source_dir recording)
                                    (datetime recording) (modeName recording)
                                    (duration recording) path sha of
                               Inl e \<Rightarrow> (failure recording e, w2)
                             | Inr w3 \<Rightarrow>
                                 (\<lparr>success = True, res_source_dir = source_dir recording,
                                   error = None, file_path = Some path, commit_sha = sha\<rparr>,
                                  w3))))))"

text \<open>
  The loop of \<open>run_archiver\<close> over the scanned recordings. The test \<open>is_archived\<close>
  stands outside the \<open>try\<close> of \<open>archive_recording\<close>: when it raises, the loop ends
  with that exception.
\<close>

fun archive_loop ::
  "'f env \<Rightarrow> bool \<Rightarrow> 'f recording list \<Rightarrow> archive_result list \<Rightarrow> nat \<Rightarrow> world
     \<Rightarrow> (error + archive_result list \<times> nat) \<times> world" where
  "archive_loop env dry_run [] res skipped w = (Inr (res, skipped), w)"
| "archive_loop env dry_run (rec # recs) res skipped w =
     (case is_archived env w (source_dir rec) of
        Inl e \<Rightarrow> (Inl e, w)
      | Inr archived \<Rightarrow>
          if archived then archive_loop env dry_run recs res (skipped + 1) w
          else (let (r, w') = archive_recording env rec w dry_run
                in archive_loop env dry_run recs (res @ [r]) skipped w'))"

text \<open>The since bound that \<open>run_archiver\<close> hands to the scanner.\<close>

definition resolve_since ::
  "'f env \<Rightarrow> world \<Rightarrow> bool \<Rightarrow> string option \<Rightarrow> error + string option" where
  "resolve_since env w backfill since_date =
     (if \<not> backfill then
        (if since_date \<noteq> None \<and> since_date \<noteq> Some [] then Inr since_date
         else (case get_last_run_timestamp env w of
                 Inl e \<Rightarrow> Inl e
               | Inr None \<Rightarrow> Inr None
               | Inr (Some last_run) \<Rightarrow> Inr (Some (isoformat last_run))))
      else Inr None)"

text \<open>The mode filter that \<open>run_archiver\<close> hands to the scanner.\<close>

definition resolve_modes :: "config \<Rightarrow> string option \<Rightarrow> string list option" where
  "resolve_modes cfg modes_override =
     (let modes = (if modes_override \<noteq> None \<and> modes_override \<noteq> Some []
                   then split (CHR '','') (the modes_override)
                   else filters_modes cfg)
      in if modes \<noteq> [] then Some modes else None)"

definition count_where :: "('a \<Rightarrow> bool) \<Rightarrow> 'a list \<Rightarrow> nat" where
  "count_where P xs = length (filter P xs)"

text \<open>
  \<open>run_archiver\<close>: the summary, or the exception that ends the run, together with
  the world the run leaves behind.
\<close>

definition run_archiver ::
  "'f env \<Rightarrow> config \<Rightarrow> world \<Rightarrow> bool \<Rightarrow> bool \<Rightarrow> string option \<Rightarrow> string option
     \<Rightarrow> (error + archive_summary) \<times> world" where
  "run_archiver env cfg w0 dry_run backfill since_date modes_override =
     (case init_db env w0 of
        Inl e \<Rightarrow> (Inl e, w0)
      | Inr w1 \<Rightarrow>
          if \<not> repo_valid env then (Inl ValueError, w1)
          else
            (case (if \<not> dry_run then ensure_up_to_date env w1 else Inr w1) of
               Inl e \<Rightarrow> (Inl e, w1)
             | Inr w2 \<Rightarrow>
                 (case resolve_since env w2 backfill since_date of
                    Inl e \<Rightarrow> (Inl e, w2)
                  | Inr since \<Rightarrow>
                      (case scan (library env) (recordings_root env)
                              (resolve_modes cfg modes_override)
                              (filters_min_duration_ms cfg) since of
                         Inl e \<Rightarrow> (Inl e, w2)
                       | Inr recordings \<Rightarrow>
                           (case archive_loop env dry_run recordings [] 0 w2 of
                              (Inl e, w3) \<Rightarrow> (Inl e, w3)
                            | (Inr (res, skipped), w3) \<Rightarrow>
                                (case (if \<not> dry_run \<and> list_ex success res
                                       then push_to_remote env w3 else Inr w3) of
                                   Inl e \<Rightarrow> (Inl e, w3)
                                 | Inr w4 \<Rightarrow>
                                     (case (if \<not> dry_run
                                            then update_last_run env w4 (length recordings)
                                                   (count_where success res)
                                                   (count_where (\<lambda>r. \<not> success r) res)
                                            else Inr w4) of
                                        Inl e \<Rightarrow> (Inl e, w4)
                                      | Inr w5 \<Rightarrow>
                                          (Inr \<lparr>total_recordings = length recordings,
                                                archived_count = count_where success res,
                                                failed_count = count_where (\<lambda>r. \<not> success r) res,
                                                skipped_count = skipped,
                                                results = res\<rparr>, w5))))))))"


section \<open>Definitions for the properties\<close>

subsection \<open>Digits, paths and durations\<close>

definition digit_val :: "char \<Rightarrow> nat option" where
  "digit_val c = map_of (zip ''0123456789'' [0, 1, 2, 3, 4, 5, 6, 7, 8, 9]) c"

text \<open>A number below 100 written with exactly two digits, one below 10000 with four.\<close>

definition two_digits :: "nat \<Rightarrow> string" where
  "two_digits n = [digit_char (n div 10), digit_char n]"

definition four_digits :: "nat \<Rightarrow> string" where
  "four_digits n = [digit_char (n div 1000), digit_char (n div 100), digit_char (n div 10), digit_char n]"

text \<open>The ranges that the constructor of \<open>datetime\<close> enforces.\<close>

definition valid_datetime :: "py_datetime \<Rightarrow> bool" where
  "valid_datetime dt =
     (1 \<le> year dt \<and> year dt \<le> 9999 \<and> 1 \<le> month dt \<and> month dt \<le> 12 \<and> 1 \<le> day dt
      \<and> day dt \<le> 31 \<and> hour dt \<le> 23 \<and> minute dt \<le> 59 \<and> second dt \<le> 59
      \<and> microsecond dt \<le> 999999)"

text \<open>
  The path \<open>{year}/{2-digit month}/{year-month-day-hour-minute-second}.md\<close> for a
  given text of the year; the path in the words of the specification, where the year has
  four digits; and the text of the year as the library writes it, which has four digits
  from the year 1000 on and wherever the platform pads.
\<close>

definition path_text :: "string \<Rightarrow> py_datetime \<Rightarrow> string" where
  "path_text y dt =
     y @ ''/'' @ two_digits (month dt) @ ''/''
     @ y @ ''-'' @ two_digits (month dt) @ ''-'' @ two_digits (day dt)
     @ ''-'' @ two_digits (hour dt) @ ''-'' @ two_digits (minute dt)
     @ ''-'' @ two_digits (second dt) @ ''.md''"

definition spec_path :: "py_datetime \<Rightarrow> string" where
  "spec_path dt = path_text (four_digits (year dt)) dt"

definition year_text :: "library \<Rightarrow> py_datetime \<Rightarrow> string" where
  "year_text lib dt =
     (if pad_year lib \<or> 1000 \<le> year dt then four_digits (year dt) else str_nat (year dt))"

text \<open>
  The duration string in the words of the specification: \<open>Ns\<close> below one minute,
  \<open>Mm Ss\<close> below one hour, \<open>Hh Mm Ss\<close> otherwise, each number computed from the
  milliseconds directly.
\<close>

definition spec_duration :: "int \<Rightarrow> string" where
  "spec_duration d =
     (if d < 60000 then str_int (d div 1000) @ ''s''
      else if d < 3600000 then
        str_int (d div 60000) @ ''m '' @ str_int (d div 1000 mod 60) @ ''s''
      else
        str_int (d div 3600000) @ ''h '' @ str_int (d div 60000 mod 60) @ ''m ''
        @ str_int (d div 1000 mod 60) @ ''s'')"

subsection \<open>A library for the examples\<close>

text \<open>
  The examples below are evaluated with a library that lowers and trims ASCII text and
  reads timestamps in the format \<open>YYYY-MM-DD[*HH[:MM[:SS[.fff[fff]]]][+HH:MM]]\<close>, the
  format that every version of \<open>datetime.fromisoformat\<close> accepts and in which
  \<open>isoformat\<close> writes. The examples use ASCII text and timestamps on which every
  version of Python agrees with it. It comes with and without the padding of \<open>%Y\<close>.
\<close>

definition ascii_lower_char :: "char \<Rightarrow> char" where
  "ascii_lower_char c =
     (case map_of (zip ''ABCDEFGHIJKLMNOPQRSTUVWXYZ'' ''abcdefghijklmnopqrstuvwxyz'') c of
        None \<Rightarrow> c | Some l \<Rightarrow> l)"

definition ascii_lower :: "string \<Rightarrow> string" where
  "ascii_lower s = map ascii_lower_char s"

definition ascii_space :: "char \<Rightarrow> bool" where
  "ascii_space c = (c \<in> set [CHR 0x09, CHR 0x0A, CHR 0x0B, CHR 0x0C, CHR 0x0D,
                              CHR 0x1C, CHR 0x1D, CHR 0x1E, CHR 0x1F, CHR 0x20])"

definition ascii_strip :: "string \<Rightarrow> string" where
  "ascii_strip s = rev (dropWhile ascii_space (rev (dropWhile ascii_space s)))"

definition digits_val :: "string \<Rightarrow> nat option" where
  "digits_val s =
     (if s = [] \<or> \<not> list_all (\<lambda>c. digit_val c \<noteq> None) s then None
      else Some (foldl (\<lambda>a c. 10 * a + the (digit_val c)) 0 s))"

definition basic_date :: "string \<Rightarrow> (nat \<times> nat \<times> nat) option" where
  "basic_date d =
     (if length d = 10 \<and> d ! 4 = CHR ''-'' \<and> d ! 7 = CHR ''-'' then
        (case (digits_val (take 4 d), digits_val (take 2 (drop 5 d)), digits_val (drop 8 d)) of
           (Some y, Some m, Some dd) \<Rightarrow> Some (y, m, dd)
         | _ \<Rightarrow> None)
      else None)"

definition basic_hh_mm_ss_ff :: "string \<Rightarrow> (nat \<times> nat \<times> nat \<times> nat) option" where
  "basic_hh_mm_ss_ff t =
     (let n = length t in
      if n = 2 then
        (case digits_val t of Some H \<Rightarrow> Some (H, 0, 0, 0) | None \<Rightarrow> None)
      else if n = 5 \<and> t ! 2 = CHR '':'' then
        (case (digits_val (take 2 t), digits_val (drop 3 t)) of
           (Some H, Some M) \<Rightarrow> Some (H, M, 0, 0) | _ \<Rightarrow> None)
      else if n = 8 \<and> t ! 2 = CHR '':'' \<and> t ! 5 = CHR '':'' then
        (case (digits_val (take 2 t), digits_val (take 2 (drop 3 t)), digits_val (drop 6 t)) of
           (Some H, Some M, Some S) \<Rightarrow> Some (H, M, S, 0) | _ \<Rightarrow> None)
      else if (n = 12 \<or> n = 15) \<and> t ! 2 = CHR '':'' \<and> t ! 5 = CHR '':'' \<and> t ! 8 = CHR ''.'' then
        (case (digits_val (take 2 t), digits_val (take 2 (drop 3 t)),
               digits_val (take 2 (drop 6 t)), digits_val (drop 9 t)) of
           (Some H, Some M, Some S, Some f) \<Rightarrow>
             Some (H, M, S, if n = 12 then f * 1000 else f)
         | _ \<Rightarrow> None)
      else None)"

definition basic_offset :: "char \<Rightarrow> string \<Rightarrow> int option" where
  "basic_offset sign z =
     (if length z = 5 \<and> z ! 2 = CHR '':'' then
        (case (digits_val (take 2 z), digits_val (drop 3 z)) of
           (Some H, Some M) \<Rightarrow>
             Some ((if sign = CHR ''-'' then - 1 else 1) * int (60 * H + M) * 60000000)
         | _ \<Rightarrow> None)
      else None)"

text \<open>The position of the offset sign: the first \<open>-\<close>, or else the first \<open>+\<close>.\<close>

fun find_char :: "char \<Rightarrow> string \<Rightarrow> nat option" where
  "find_char c [] = None"
| "find_char c (x # xs) =
     (if x = c then Some 0 else map_option Suc (find_char c xs))"

definition basic_time ::
  "string \<Rightarrow> ((nat \<times> nat \<times> nat \<times> nat) \<times> int option) option" where
  "basic_time t =
     (case (case find_char (CHR ''-'') t of Some i \<Rightarrow> Some i
            | None \<Rightarrow> find_char (CHR ''+'') t) of
        None \<Rightarrow> map_option (\<lambda>c. (c, None)) (basic_hh_mm_ss_ff t)
      | Some i \<Rightarrow>
          (case (basic_hh_mm_ss_ff (take i t), basic_offset (t ! i) (drop (Suc i) t)) of
             (Some c, Some off) \<Rightarrow> Some (c, Some off)
           | _ \<Rightarrow> None))"

definition basic_parse :: "string \<Rightarrow> py_datetime option" where
  "basic_parse s =
     (case basic_date (take 10 s) of
        None \<Rightarrow> None
      | Some (y, m, d) \<Rightarrow>
          if length s = 10 then
            Some \<lparr>year = y, month = m, day = d, hour = 0, minute = 0, second = 0,
                  microsecond = 0, tzoffset = None\<rparr>
          else
            (case basic_time (drop 11 s) of
               None \<Rightarrow> None
             | Some ((H, M, S, us), tz) \<Rightarrow>
                 Some \<lparr>year = y, month = m, day = d, hour = H, minute = M, second = S,
                       microsecond = us, tzoffset = tz\<rparr>))"

definition basic_library :: library where
  "basic_library =
     \<lparr>parse_isoformat = basic_parse, lower = ascii_lower, strip = ascii_strip, pad_year = True\<rparr>"

definition glibc_library :: library where
  "glibc_library = basic_library\<lparr>pad_year := False\<rparr>"

text \<open>
  Offsets for the examples: a whole number of tenths of a second, a NaN, or an infinity;
  and \<open>_format_timestamp\<close> on them, \<open>mins = int(seconds) // 60\<close>,
  \<open>secs = seconds - mins * 60\<close>, printed as \<open>{mins:02d}:{secs:04.1f}\<close>.
\<close>

datatype offset =
    Tenths nat
  | NaN
  | Infinity

fun print_offset :: "offset \<Rightarrow> error + string" where
  "print_offset (Tenths n) =
     Inr (zpad 2 (str_nat (n div 600)) @ '':'' @ zpad 2 (str_nat (n mod 600 div 10))
          @ ''.'' @ str_nat (n mod 10))"
| "print_offset NaN = Inl ValueError"
| "print_offset Infinity = Inl OverflowError"

text \<open>The recording that the tests of the formatter use, its offsets rounded to tenths.\<close>

definition sample_recording :: "offset recording" where
  "sample_recording =
     \<lparr>source_dir = ''1770978710'', datetime = ''2026-02-13T10:31:50'',
      result = ''Hello world. How are you?'', rawResult = '' Hello world. How are you?'',
      duration = 13647,
      segments = [\<lparr>seg_text = ''Hello world.'', seg_start = Tenths 17, seg_end = Tenths 50\<rparr>],
      modeName = ''Meeting'', modelName = ''Ultra (Cloud)'', languageSelected = ''en'',
      systemAudioEnabled = True, appVersion = ''2.9.0'',
      languageModelName = Some ''GPT-5 mini'', llmResult = None\<rparr>"

text \<open>A recording one of whose offsets is infinite.\<close>

definition endless_recording :: "offset recording" where
  "endless_recording =
     sample_recording\<lparr>datetime := ''2026-02-16T08:00:00'',
       segments := [\<lparr>seg_text = ''Hello world.'', seg_start = Tenths 17, seg_end = Infinity\<rparr>]\<rparr>"

text \<open>Two readings of the clock, a day apart.\<close>

definition clock_a :: py_datetime where
  "clock_a = \<lparr>year = 2026, month = 2, day = 14, hour = 9, minute = 0, second = 0,
              microsecond = 0, tzoffset = None\<rparr>"

definition clock_b :: py_datetime where
  "clock_b = \<lparr>year = 2026, month = 2, day = 15, hour = 9, minute = 0, second = 0,
              microsecond = 0, tzoffset = None\<rparr>"

subsection \<open>The document\<close>

text \<open>
  Whether \<open>format_recording\<close> raises for a recording, and what: the \<open>ValueError\<close> of a
  timestamp that does not parse, or else the exception of the first segment offset that
  cannot be printed.
\<close>

definition format_error :: "'f env \<Rightarrow> 'f recording \<Rightarrow> error option" where
  "format_error env rec =
     (case fromisoformat (library env) (datetime rec) of
        None \<Rightarrow> Some ValueError
      | Some dt \<Rightarrow>
          (case segment_lines (format_timestamp env) (segments rec) of
             Inl e \<Rightarrow> Some e
           | Inr lines \<Rightarrow> None))"

text \<open>The text from which the transcription section is taken, and the section.\<close>

definition chosen_text :: "'f recording \<Rightarrow> string" where
  "chosen_text r = (if result r \<noteq> [] then result r else rawResult r)"

definition transcription_section :: "library \<Rightarrow> 'f recording \<Rightarrow> string" where
  "transcription_section lib r =
     ''## Transcription'' @ nl @ nl @ strip lib (chosen_text r) @ nl"

text \<open>
  The body before the place of the transcription section: the title line and the line of
  mode and duration. The body after it: the summary and the segments, where there are any,
  and the footer.
\<close>

definition body_head :: "library \<Rightarrow> py_datetime \<Rightarrow> string \<Rightarrow> int \<Rightarrow> string" where
  "body_head lib dt mode duration_ms =
     nl @ ''# Recording '' @ em_dash @ '' '' @ strftime lib dt ''%Y-%m-%d %H:%M'' @ nl @ nl
     @ ''**Mode**: '' @ mode @ '' | **Duration**: '' @ format_duration duration_ms @ nl @ nl"

definition body_tail ::
  "library \<Rightarrow> string option \<Rightarrow> bool \<Rightarrow> string list \<Rightarrow> py_datetime \<Rightarrow> string" where
  "body_tail lib summary with_segments lines now =
     join nl
       ((case summary of
           None \<Rightarrow> []
         | Some l \<Rightarrow> if l \<noteq> [] then [''## Summary'' @ nl @ nl @ l @ nl] else [])
        @ (if with_segments then [''## Segments'' @ nl @ nl @ join nl lines @ nl] else [])
        @ [nl @ ''---'' @ nl @ ''*Archived: '' @ strftime lib now ''%Y-%m-%d'' @ ''*'' @ nl])"

text \<open>A recording in which nothing was said, and the body that it is given.\<close>

definition silent_recording :: "offset recording" where
  "silent_recording = sample_recording\<lparr>result := [], rawResult := [], segments := []\<rparr>"

definition silent_body :: string where
  "silent_body =
     nl @ ''# Recording '' @ em_dash @ '' 2026-02-13 10:31'' @ nl @ nl
     @ ''**Mode**: Meeting | **Duration**: 13s'' @ nl @ nl
     @ nl @ ''---'' @ nl @ ''*Archived: 2026-02-14*'' @ nl"

subsection \<open>The scanner\<close>

text \<open>The recordings that the scanner loads from a root directory.\<close>

definition parsed_recordings :: "'f root_dir \<Rightarrow> 'f recording list" where
  "parsed_recordings root =
     (case root of Directory entries \<Rightarrow> load_recordings entries | _ \<Rightarrow> [])"

text \<open>The three filters in the words of the specification.\<close>

definition mode_matches :: "library \<Rightarrow> string list option \<Rightarrow> 'f recording \<Rightarrow> bool" where
  "mode_matches lib modes r =
     (case modes of
        None \<Rightarrow> True
      | Some ms \<Rightarrow> ms = [] \<or> list_ex (\<lambda>m. lower lib m = lower lib (modeName r)) ms)"

definition duration_ok :: "int \<Rightarrow> 'f recording \<Rightarrow> bool" where
  "duration_ok min_duration_ms r = (if min_duration_ms > 0 then duration r \<ge> min_duration_ms else True)"

definition since_ok :: "library \<Rightarrow> string option \<Rightarrow> 'f recording \<Rightarrow> bool" where
  "since_ok lib since r =
     (case since of
        None \<Rightarrow> True
      | Some s \<Rightarrow>
          s = [] \<or>
          (case (fromisoformat lib (datetime r), fromisoformat lib s) of
             (Some dt, Some since_dt) \<Rightarrow> datetime_ge dt since_dt = Inr True
           | _ \<Rightarrow> False))"

text \<open>
  The since bound and the timestamps of the given recordings can be compared: the bound is
  absent, or it parses, every timestamp parses, and all of them carry a UTC offset or none
  does.
\<close>

definition comparable :: "library \<Rightarrow> string option \<Rightarrow> 'f recording list \<Rightarrow> bool" where
  "comparable lib since rs =
     (case since of
        None \<Rightarrow> True
      | Some s \<Rightarrow>
          s = [] \<or>
          (case fromisoformat lib s of
             None \<Rightarrow> False
           | Some since_dt \<Rightarrow>
               list_all (\<lambda>r. case fromisoformat lib (datetime r) of
                                None \<Rightarrow> False
                              | Some dt \<Rightarrow> (tzoffset dt = None) = (tzoffset since_dt = None)) rs))"

text \<open>
  A recordings directory met in this order: a late meeting, a plain file, an early meeting,
  a recording in another mode, a directory without metadata, a short meeting, an old
  meeting, and a directory whose metadata does not load.
\<close>

definition example_root :: "offset root_dir" where
  "example_root =
     Directory
       [(''1770978720'', DirMeta (sample_recording\<lparr>datetime := ''2026-02-15T18:00:00''\<rparr>)),
        (''notes.txt'', File),
        (''1770978710'', DirMeta (sample_recording\<lparr>datetime := ''2026-02-10T08:00:00''\<rparr>)),
        (''1770978730'', DirMeta (sample_recording\<lparr>modeName := ''Default''\<rparr>)),
        (''1770978740'', DirNoMeta),
        (''1770978750'', DirMeta (sample_recording\<lparr>duration := 100\<rparr>)),
        (''1770978760'', DirMeta (sample_recording\<lparr>datetime := ''2026-02-01T10:00:00''\<rparr>)),
        (''1770978770'', DirBadMeta)]"

subsection \<open>Runs\<close>

text \<open>
  An event list in which every \<open>MarkArchived\<close> comes directly after the \<open>Commit\<close> of
  its own file: the same path, the identifier that the commit returned, and a commit
  message that names the source directory. \<open>prev\<close> is the event before the list.
\<close>

fun follows :: "event option \<Rightarrow> event list \<Rightarrow> bool" where
  "follows prev [] = True"
| "follows prev (e # es) =
     ((case e of
         MarkArchived sd p sha \<Rightarrow>
           (case prev of
              Some (Commit p' c m s) \<Rightarrow>
                p' = p \<and> sha = Some s \<and> s \<noteq> [] \<and> sublist (''Source: '' @ sd @ nl) m
            | _ \<Rightarrow> False)
       | _ \<Rightarrow> True)
      \<and> follows (Some e) es)"

definition marks_follow_commits :: "event list \<Rightarrow> bool" where
  "marks_follow_commits evs = follows None evs"

text \<open>
  What a stretch of a run may do to the world: it appends events in which every mark
  follows its own commit whatever came before, it appends commits, and every row of the
  archive table that it adds or changes names a commit that the repository holds.
\<close>

definition self_contained :: "event list \<Rightarrow> bool" where
  "self_contained evs = (\<forall>prev. follows prev evs)"

definition committed_rows :: "world \<Rightarrow> world \<Rightarrow> bool" where
  "committed_rows w w' =
     (\<forall>sd row. archived_recordings (tables w') sd = Some row \<longrightarrow>
        archived_recordings (tables w) sd = Some row
        \<or> (\<exists>c m s. s \<noteq> [] \<and> row_commit_sha row = Some s
                     \<and> (row_file_path row, c, m, s) \<in> set (commits w')))"

definition grows :: "world \<Rightarrow> world \<Rightarrow> bool" where
  "grows w w' =
     ((\<exists>evs. trace w' = trace w @ evs \<and> self_contained evs)
      \<and> (\<exists>cs. commits w' = commits w @ cs)
      \<and> committed_rows w w')"

text \<open>Whether the archive table holds a row for a source directory.\<close>

definition archived :: "world \<Rightarrow> string \<Rightarrow> bool" where
  "archived w sd = (archived_recordings (tables w) sd \<noteq> None)"

text \<open>
  The result of a dry run for one recording: the failure of the exception that
  \<open>format_recording\<close> raises, or else a success with the path and no commit identifier.
\<close>

definition dry_result :: "'f env \<Rightarrow> 'f recording \<Rightarrow> archive_result" where
  "dry_result env rec =
     (case format_error env rec of
        Some e \<Rightarrow> failure rec e
      | None \<Rightarrow>
          (case compute_file_path (library env) rec of
             Inl e \<Rightarrow> failure rec e
           | Inr path \<Rightarrow>
               \<lparr>success = True, res_source_dir = source_dir rec, error = None,
                file_path = Some path, commit_sha = None\<rparr>))"

text \<open>
  The result that a recording must get, told from the recording and the environment alone,
  where \<open>n\<close> is the number of commits that git has been asked for so far: a failure
  with the exception of \<open>format_recording\<close>; in a dry run a success with the path; a
  failure when git returns no commit identifier; a failure when the mark cannot be written;
  and otherwise a success with the path and the identifier. A recording asks git for a
  commit when the run is not dry and the document is built.
\<close>

definition outcome :: "'f env \<Rightarrow> bool \<Rightarrow> nat \<Rightarrow> 'f recording \<Rightarrow> archive_result" where
  "outcome env dry_run n rec =
     (case format_error env rec of
        Some e \<Rightarrow> failure rec e
      | None \<Rightarrow>
          (case compute_file_path (library env) rec of
             Inl e \<Rightarrow> failure rec e
           | Inr path \<Rightarrow>
               if dry_run then
                 \<lparr>success = True, res_source_dir = source_dir rec, error = None,
                  file_path = Some path, commit_sha = None\<rparr>
               else
                 (case commit_outcome env n of
                    None \<Rightarrow> failure rec CommitFailed
                  | Some sha \<Rightarrow>
                      if sha = [] then failure rec CommitFailed
                      else if store_fails env (OpMarkArchived (source_dir rec))
                      then failure rec StoreError
                      else \<lparr>success = True, res_source_dir = source_dir rec, error = None,
                            file_path = Some path, commit_sha = Some sha\<rparr>)))"

definition attempts :: "'f env \<Rightarrow> bool \<Rightarrow> 'f recording \<Rightarrow> nat" where
  "attempts env dry_run rec = (if \<not> dry_run \<and> format_error env rec = None then 1 else 0)"

text \<open>
  The results that a list of recordings must get, one for each in order: each recording
  has the result told above, whatever became of the recordings before it.
\<close>

fun expected :: "'f env \<Rightarrow> bool \<Rightarrow> nat \<Rightarrow> 'f recording list \<Rightarrow> archive_result list" where
  "expected env dry_run n [] = []"
| "expected env dry_run n (rec # recs) =
     outcome env dry_run n rec # expected env dry_run (n + attempts env dry_run rec) recs"

text \<open>
  The part of a run before the scan and the part after the loop: the exception that ends it
  there, if any, and the world it leaves.
\<close>

definition start_run :: "'f env \<Rightarrow> bool \<Rightarrow> world \<Rightarrow> error option \<times> world" where
  "start_run env dry_run w0 =
     (case init_db env w0 of
        Inl e \<Rightarrow> (Some e, w0)
      | Inr w1 \<Rightarrow>
          if \<not> repo_valid env then (Some ValueError, w1)
          else (case (if \<not> dry_run then ensure_up_to_date env w1 else Inr w1) of
                  Inl e \<Rightarrow> (Some e, w1)
                | Inr w2 \<Rightarrow> (None, w2)))"

definition end_run ::
  "'f env \<Rightarrow> bool \<Rightarrow> nat \<Rightarrow> archive_result list \<Rightarrow> world \<Rightarrow> error option \<times> world" where
  "end_run env dry_run n res w3 =
     (case (if \<not> dry_run \<and> list_ex success res then push_to_remote env w3 else Inr w3) of
        Inl e \<Rightarrow> (Some e, w3)
      | Inr w4 \<Rightarrow>
          (case (if \<not> dry_run
                 then update_last_run env w4 n (count_where success res)
                        (count_where (\<lambda>r. \<not> success r) res)
                 else Inr w4) of
             Inl e \<Rightarrow> (Some e, w4)
           | Inr w5 \<Rightarrow> (None, w5)))"

definition summary_of :: "nat \<Rightarrow> archive_result list \<Rightarrow> nat \<Rightarrow> archive_summary" where
  "summary_of n res skipped =
     \<lparr>total_recordings = n, archived_count = count_where success res,
      failed_count = count_where (\<lambda>r. \<not> success r) res, skipped_count = skipped,
      results = res\<rparr>"

text \<open>
  An example run. The recordings directory holds five meetings; the second has a
  timestamp that does not parse, the last a segment with an infinite offset. The first is
  already in the archive table. The first commit that git is asked for fails, every later
  one succeeds. The sync, the push and the state store work.
\<close>

definition example_env :: "offset env" where
  "example_env =
     \<lparr>library = basic_library,
      recordings_root =
        Directory
          [(''1770978710'', DirMeta sample_recording),
           (''1770978720'', DirMeta (sample_recording\<lparr>datetime := ''yesterday''\<rparr>)),
           (''1770978730'', DirMeta (sample_recording\<lparr>datetime := ''2026-02-14T09:00:00''\<rparr>)),
           (''1770978740'', DirMeta (sample_recording\<lparr>datetime := ''2026-02-15T18:00:00''\<rparr>)),
           (''1770978750'', DirMeta endless_recording)],
      repo_valid = True,
      sync_raises = None,
      commit_outcome = (\<lambda>n. if n = 0 then None else Some ''abc123''),
      push_raises = None,
      store_fails = (\<lambda>op. False),
      clock = (\<lambda>n. clock_a),
      format_timestamp = print_offset\<rparr>"

definition example_cfg :: config where
  "example_cfg = \<lparr>filters_modes = [''meeting''], filters_min_duration_ms = 0\<rparr>"

definition example_world :: world where
  "example_world =
     \<lparr>state_db =
        Some \<lparr>archived_recordings =
                [''1770978710'' \<mapsto>
                   \<lparr>row_datetime = ''2026-02-13T10:31:50'', row_mode = ''Meeting'',
                    row_duration_ms = 13647,
                    row_file_path = ''2026/02/2026-02-13-10-31-50.md'',
                    row_commit_sha = Some ''0a1b2c'',
                    row_archived_at = ''2026-02-13T12:00:00''\<rparr>],
              archive_runs = []\<rparr>,
      commits = [], git_calls = 0, ticks = 0, trace = []\<rparr>"

text \<open>A machine on which the archiver has never run.\<close>

definition fresh_world :: world where
  "fresh_world = \<lparr>state_db = None, commits = [], git_calls = 0, ticks = 0, trace = []\<rparr>"

text \<open>What the scanner returns for the example, and the results of the example run.\<close>

definition example_recordings :: "offset recording list" where
  "example_recordings =
     [sample_recording\<lparr>source_dir := ''1770978710''\<rparr>,
      sample_recording\<lparr>source_dir := ''1770978730'', datetime := ''2026-02-14T09:00:00''\<rparr>,
      sample_recording\<lparr>source_dir := ''1770978740'', datetime := ''2026-02-15T18:00:00''\<rparr>,
      endless_recording\<lparr>source_dir := ''1770978750''\<rparr>,
      sample_recording\<lparr>source_dir := ''1770978720'', datetime := ''yesterday''\<rparr>]"

definition example_results :: "archive_result list" where
  "example_results =
     [\<lparr>success = False, res_source_dir = ''1770978730'', error = Some CommitFailed,
       file_path = None, commit_sha = None\<rparr>,
      \<lparr>success = True, res_source_dir = ''1770978740'', error = None,
       file_path = Some ''2026/02/2026-02-15-18-00-00.md'', commit_sha = Some ''abc123''\<rparr>,
      \<lparr>success = False, res_source_dir = ''1770978750'', error = Some OverflowError,
       file_path = None, commit_sha = None\<rparr>,
      \<lparr>success = False, res_source_dir = ''1770978720'', error = Some ValueError,
       file_path = None, commit_sha = None\<rparr>]"

text \<open>A recordings directory with one recording, whose timestamp does not parse.\<close>

definition lone_env :: "offset env" where
  "lone_env =
     example_env\<lparr>recordings_root :=
       Directory [(''1770978720'', DirMeta (sample_recording\<lparr>datetime := ''yesterday''\<rparr>))]\<rparr>"

text \<open>The results of a dry run on the example.\<close>

definition example_dry_results :: "archive_result list" where
  "example_dry_results =
     [\<lparr>success = True, res_source_dir = ''1770978730'', error = None,
       file_path = Some ''2026/02/2026-02-14-09-00-00.md'', commit_sha = None\<rparr>,
      \<lparr>success = True, res_source_dir = ''1770978740'', error = None,
       file_path = Some ''2026/02/2026-02-15-18-00-00.md'', commit_sha = None\<rparr>,
      \<lparr>success = False, res_source_dir = ''1770978750'', error = Some OverflowError,
       file_path = None, commit_sha = None\<rparr>,
      \<lparr>success = False, res_source_dir = ''1770978720'', error = Some ValueError,
       file_path = None, commit_sha = None\<rparr>]"


section \<open>Properties\<close>

subsection \<open>Decimal digits and \<open>strftime\<close>\<close>

lemma lt10_cases:
  "(k::nat) < 10 \<Longrightarrow> k = 0 \<or> k = 1 \<or> k = 2 \<or> k = 3 \<or> k = 4 \<or> k = 5 \<or> k = 6 \<or> k = 7 \<or> k = 8 \<or> k = 9"
  by arith

lemma digit_val_digit_char: "digit_val (digit_char n) = Some (n mod 10)"
proof -
  have "n mod 10 < 10" by simp
  from lt10_cases [OF this] show ?thesis
    by (elim disjE) (simp_all add: digit_val_def digit_char_def)
qed

lemma digit_char_inj: "digit_char a = digit_char b \<Longrightarrow> a mod 10 = b mod 10"
  using digit_val_digit_char [of a] digit_val_digit_char [of b] by simp

lemma str_nat_lt10: "n < 10 \<Longrightarrow> str_nat n = [digit_char n]"
  by (simp add: str_nat.simps)

lemma str_nat_lt100: "10 \<le> n \<Longrightarrow> n < 100 \<Longrightarrow> str_nat n = [digit_char (n div 10), digit_char n]"
  by (subst str_nat.simps) (simp add: str_nat_lt10)

lemma str_nat_lt1000: "100 \<le> n \<Longrightarrow> n < 1000 \<Longrightarrow> str_nat n = [digit_char (n div 100), digit_char (n div 10), digit_char n]"
  by (subst str_nat.simps) (simp add: str_nat_lt100 div_mult2_eq[symmetric])

lemma str_nat_lt10000: "1000 \<le> n \<Longrightarrow> n < 10000 \<Longrightarrow> str_nat n = [digit_char (n div 1000), digit_char (n div 100), digit_char (n div 10), digit_char n]"
  by (subst str_nat.simps) (simp add: str_nat_lt1000 div_mult2_eq[symmetric])

lemma digit_char_0: "n mod 10 = 0 \<Longrightarrow> digit_char n = CHR ''0''"
  by (simp add: digit_char_def)

lemma replicate_2: "replicate 2 c = [c, c]"
  by (simp add: numeral_2_eq_2)

lemma replicate_3: "replicate 3 c = [c, c, c]"
  by (simp add: numeral_3_eq_3)

lemma zpad2: "n < 100 \<Longrightarrow> zpad 2 (str_nat n) = two_digits n"
  by (cases "n < 10") (simp_all add: zpad_def two_digits_def str_nat_lt10 str_nat_lt100 digit_char_0)

lemma zpad4: "n < 10000 \<Longrightarrow> zpad 4 (str_nat n) = four_digits n"
proof -
  assume a: "n < 10000"
  consider "n < 10" | "10 \<le> n" "n < 100" | "100 \<le> n" "n < 1000" | "1000 \<le> n" by linarith
  then show ?thesis
  proof cases
    case 1 then show ?thesis by (simp add: zpad_def four_digits_def str_nat_lt10 digit_char_0 replicate_3)
  next
    case 2 then show ?thesis by (simp add: zpad_def four_digits_def str_nat_lt100 digit_char_0 replicate_2)
  next
    case 3 then show ?thesis by (simp add: zpad_def four_digits_def str_nat_lt1000 digit_char_0)
  next
    case 4 then show ?thesis using a by (simp add: zpad_def four_digits_def str_nat_lt10000)
  qed
qed

lemma two_digits_inj: "a < 100 \<Longrightarrow> b < 100 \<Longrightarrow> two_digits a = two_digits b \<Longrightarrow> a = b"
proof -
  assume a: "a < 100" and b: "b < 100" and e: "two_digits a = two_digits b"
  from e have 1: "(a div 10) mod 10 = (b div 10) mod 10" and 2: "a mod 10 = b mod 10"
    by (auto simp: two_digits_def dest: digit_char_inj)
  from a b have "a div 10 < 10" "b div 10 < 10" by simp_all
  with 1 have "a div 10 = b div 10" by simp
  with 2 show ?thesis by (metis mult_div_mod_eq)
qed

lemma four_digits_inj: "a < 10000 \<Longrightarrow> b < 10000 \<Longrightarrow> four_digits a = four_digits b \<Longrightarrow> a = b"
proof -
  assume a: "a < 10000" and b: "b < 10000" and e: "four_digits a = four_digits b"
  from e have 1: "(a div 1000) mod 10 = (b div 1000) mod 10" and 2: "(a div 100) mod 10 = (b div 100) mod 10"
    and 3: "(a div 10) mod 10 = (b div 10) mod 10" and 4: "a mod 10 = b mod 10"
    by (auto simp: four_digits_def dest: digit_char_inj)
  from a b have "a div 1000 < 10" "b div 1000 < 10" by simp_all
  with 1 have 5: "a div 1000 = b div 1000" by simp
  have s: "\<And>x::nat. x div 100 div 10 = x div 1000" "\<And>x::nat. x div 10 div 10 = x div 100"
    by (simp_all add: div_mult2_eq [symmetric])
  have "a div 100 = 10 * (a div 1000) + a div 100 mod 10"
    using mult_div_mod_eq [of 10 "a div 100"] by (simp only: s)
  moreover have "b div 100 = 10 * (b div 1000) + b div 100 mod 10"
    using mult_div_mod_eq [of 10 "b div 100"] by (simp only: s)
  ultimately have 6: "a div 100 = b div 100" using 5 2 by linarith
  have "a div 10 = 10 * (a div 100) + a div 10 mod 10"
    using mult_div_mod_eq [of 10 "a div 10"] by (simp only: s)
  moreover have "b div 10 = 10 * (b div 100) + b div 10 mod 10"
    using mult_div_mod_eq [of 10 "b div 10"] by (simp only: s)
  ultimately have 7: "a div 10 = b div 10" using 6 3 by linarith
  have "a = 10 * (a div 10) + a mod 10" "b = 10 * (b div 10) + b mod 10"
    by simp_all
  with 7 4 show ?thesis by linarith
qed
lemma str_nat_digits: "c \<in> set (str_nat n) \<Longrightarrow> digit_val c \<noteq> None"
proof (induction n arbitrary: c rule: str_nat.induct)
  case (1 n)
  show ?case
  proof (cases "n < 10")
    case True
    with 1(2) show ?thesis by (simp add: str_nat_lt10 digit_val_digit_char)
  next
    case False
    with 1(2) have "c \<in> set (str_nat (n div 10)) \<or> c = digit_char n"
      by (subst (asm) str_nat.simps) auto
    with 1(1) [OF False] show ?thesis by (auto simp: digit_val_digit_char)
  qed
qed

lemma str_nat_val: "foldl (\<lambda>a c. 10 * a + the (digit_val c)) 0 (str_nat n) = n"
proof (induction n rule: str_nat.induct)
  case (1 n)
  show ?case
  proof (cases "n < 10")
    case True
    then show ?thesis by (simp add: str_nat_lt10 digit_val_digit_char)
  next
    case False
    have "foldl (\<lambda>a c. 10 * a + the (digit_val c)) 0 (str_nat n)
        = 10 * foldl (\<lambda>a c. 10 * a + the (digit_val c)) 0 (str_nat (n div 10)) + n mod 10"
      using False by (subst str_nat.simps) (simp add: digit_val_digit_char)
    also have "\<dots> = 10 * (n div 10) + n mod 10" using 1 [OF False] by simp
    finally show ?thesis by simp
  qed
qed

lemma str_nat_inj:
  assumes "str_nat a = str_nat b"
  shows "a = b"
proof -
  have "a = foldl (\<lambda>a c. 10 * a + the (digit_val c)) 0 (str_nat a)"
    by (simp only: str_nat_val)
  also have "\<dots> = foldl (\<lambda>a c. 10 * a + the (digit_val c)) 0 (str_nat b)"
    by (simp only: assms)
  also have "\<dots> = b" by (rule str_nat_val)
  finally show ?thesis .
qed

lemma four_digits_digits: "c \<in> set (four_digits n) \<Longrightarrow> digit_val c \<noteq> None"
  by (auto simp: four_digits_def digit_val_digit_char)

lemma slash_no_digit: "digit_val (CHR ''/'') = None"
  by (simp add: digit_val_def)

lemma split_at_slash:
  assumes "\<forall>c \<in> set a. c \<noteq> CHR ''/''" and "\<forall>c \<in> set b. c \<noteq> CHR ''/''"
    and "a @ CHR ''/'' # x = b @ CHR ''/'' # y"
  shows "a = b \<and> x = y"
  using assms
proof (induction a arbitrary: b)
  case Nil
  then show ?case by (cases b) auto
next
  case (Cons c a)
  then show ?case by (cases b) auto
qed

subsection \<open>The archive path\<close>

lemma days_in_month_le: "days_in_month y m \<le> 31"
  by (simp add: days_in_month_def)

lemma datetime_new_valid: "datetime_new y m d H M S us tz = Some dt \<Longrightarrow> valid_datetime dt"
  using days_in_month_le [of y m]
  by (auto simp: datetime_new_def valid_datetime_def split: if_splits)

lemma fromisoformat_valid: "fromisoformat lib s = Some dt \<Longrightarrow> valid_datetime dt"
  by (auto simp: fromisoformat_def split: option.splits dest: datetime_new_valid)

lemma year_directive:
  assumes "year dt < 10000"
  shows "directive lib dt (CHR ''Y'') = year_text lib dt"
proof (cases "pad_year lib")
  case True
  with assms show ?thesis by (simp add: directive_def year_text_def zpad4)
next
  case False
  show ?thesis
  proof (cases "1000 \<le> year dt")
    case True
    with assms False show ?thesis
      by (simp add: directive_def year_text_def str_nat_lt10000 four_digits_def)
  next
    case f: False
    with False show ?thesis by (simp add: directive_def year_text_def)
  qed
qed

lemma compute_file_path_valid:
  assumes "fromisoformat lib (datetime r) = Some dt"
  shows "compute_file_path lib r = Inr (path_text (year_text lib dt) dt)"
proof -
  from assms have v: "valid_datetime dt" by (rule fromisoformat_valid)
  then have b: "month dt < 100" "day dt < 100" "hour dt < 100"
    "minute dt < 100" "second dt < 100" and y: "year dt < 10000"
    by (simp_all add: valid_datetime_def)
  have d: "directive lib dt (CHR ''m'') = two_digits (month dt)"
    "directive lib dt (CHR ''d'') = two_digits (day dt)"
    "directive lib dt (CHR ''H'') = two_digits (hour dt)"
    "directive lib dt (CHR ''M'') = two_digits (minute dt)"
    "directive lib dt (CHR ''S'') = two_digits (second dt)"
    using b by (simp_all add: directive_def zpad2)
  show ?thesis
    using assms by (simp add: compute_file_path_def path_text_def d year_directive [OF y])
qed

text \<open>The equations that evaluate the parser and the printers on concrete values.\<close>

lemmas parse_defs = fromisoformat_def basic_library_def glibc_library_def basic_parse_def
  basic_date_def basic_time_def basic_hh_mm_ss_ff_def basic_offset_def digits_val_def
  digit_val_def datetime_new_def days_in_month_def is_leap_def

lemmas print_defs = directive_def zpad_def str_nat.simps digit_char_def str_int_def

lemma spec_path_length: "length (spec_path dt) = 30"
  by (simp add: spec_path_def path_text_def four_digits_def two_digits_def)

lemma year_text_digits:
  "c \<in> set (year_text lib dt) \<Longrightarrow> c \<noteq> CHR ''/''"
  using str_nat_digits [of c "year dt"] four_digits_digits [of c "year dt"] slash_no_digit
  by (auto simp: year_text_def split: if_splits)

lemma year_text_inj:
  assumes "year d1 < 10000" "year d2 < 10000" "year_text lib d1 = year_text lib d2"
  shows "year d1 = year d2"
proof (cases "pad_year lib")
  case True
  with assms show ?thesis by (simp add: year_text_def four_digits_inj)
next
  case False
  have "\<And>d. year d < 10000 \<Longrightarrow> year_text lib d = str_nat (year d)"
    using False by (simp add: year_text_def str_nat_lt10000 four_digits_def)
  with assms have "str_nat (year d1) = str_nat (year d2)" by simp
  then show ?thesis by (rule str_nat_inj)
qed

lemma path_text_inj:
  assumes "valid_datetime d1" "valid_datetime d2"
    and "path_text (year_text lib d1) d1 = path_text (year_text lib d2) d2"
  shows "year d1 = year d2 \<and> month d1 = month d2 \<and> day d1 = day d2 \<and> hour d1 = hour d2
         \<and> minute d1 = minute d2 \<and> second d1 = second d2"
proof -
  from assms(1,2) have b: "year d1 < 10000" "year d2 < 10000" "month d1 < 100" "month d2 < 100"
    "day d1 < 100" "day d2 < 100" "hour d1 < 100" "hour d2 < 100" "minute d1 < 100"
    "minute d2 < 100" "second d1 < 100" "second d2 < 100"
    by (simp_all add: valid_datetime_def)
  define x1 where "x1 = two_digits (month d1) @ ''/'' @ year_text lib d1 @ ''-''
     @ two_digits (month d1) @ ''-'' @ two_digits (day d1) @ ''-'' @ two_digits (hour d1)
     @ ''-'' @ two_digits (minute d1) @ ''-'' @ two_digits (second d1) @ ''.md''"
  define x2 where "x2 = two_digits (month d2) @ ''/'' @ year_text lib d2 @ ''-''
     @ two_digits (month d2) @ ''-'' @ two_digits (day d2) @ ''-'' @ two_digits (hour d2)
     @ ''-'' @ two_digits (minute d2) @ ''-'' @ two_digits (second d2) @ ''.md''"
  from assms(3) have "year_text lib d1 @ CHR ''/'' # x1 = year_text lib d2 @ CHR ''/'' # x2"
    by (simp add: path_text_def x1_def x2_def)
  with year_text_digits have y: "year_text lib d1 = year_text lib d2" and x: "x1 = x2"
    using split_at_slash [of "year_text lib d1" "year_text lib d2" x1 x2] by blast+
  from x y have e: "two_digits (month d1) = two_digits (month d2)"
    "two_digits (day d1) = two_digits (day d2)"
    "two_digits (hour d1) = two_digits (hour d2)" "two_digits (minute d1) = two_digits (minute d2)"
    "two_digits (second d1) = two_digits (second d2)"
    by (simp_all add: x1_def x2_def two_digits_def)
  from y b have "year d1 = year d2" by (intro year_text_inj)
  with e b show ?thesis by (simp add: two_digits_inj)
qed

lemma sample_parsed:
  "fromisoformat basic_library (datetime sample_recording) =
     Some \<lparr>year = 2026, month = 2, day = 13, hour = 10, minute = 31, second = 50,
           microsecond = 0, tzoffset = None\<rparr>"
  by (simp add: sample_recording_def parse_defs)

text \<open>
  Claim C3, as the code has it. For every recording whose timestamp
  \<open>fromisoformat\<close> accepts, \<open>compute_file_path\<close> returns the year, a slash, the two
  digits of the month, a slash, and the file name year-month-day-hour-minute-second with
  month, day, hour, minute and second zero padded and the extension \<open>.md\<close>. From the
  year 1000 on, and for every year where the platform pads \<open>%Y\<close>, the year has four
  digits and the path is the one of the specification, thirty characters long; otherwise
  the year is written without leading zeros. The path depends on no field but the
  timestamp. Where the library reads \<open>2026-02-13T10:31:50\<close> and
  \<open>2026-01-05T23:59:01\<close> as written, they give \<open>2026/02/2026-02-13-10-31-50.md\<close>
  and \<open>2026/01/2026-01-05-23-59-01.md\<close>.
\<close>

theorem compute_file_path_spec:
  assumes "fromisoformat lib (datetime r) = Some dt"
  shows "compute_file_path lib r = Inr (path_text (year_text lib dt) dt)
         \<and> (pad_year lib \<or> 1000 \<le> year dt \<longrightarrow>
              compute_file_path lib r = Inr (spec_path dt) \<and> length (spec_path dt) = 30)
         \<and> (\<forall>r'. datetime r' = datetime r \<longrightarrow> compute_file_path lib r' = compute_file_path lib r)
         \<and> (parse_isoformat lib ''2026-02-13T10:31:50''
              = Some \<lparr>year = 2026, month = 2, day = 13, hour = 10, minute = 31, second = 50,
                      microsecond = 0, tzoffset = None\<rparr> \<longrightarrow>
            compute_file_path lib (r\<lparr>datetime := ''2026-02-13T10:31:50''\<rparr>)
              = Inr ''2026/02/2026-02-13-10-31-50.md'')
         \<and> (parse_isoformat lib ''2026-01-05T23:59:01''
              = Some \<lparr>year = 2026, month = 1, day = 5, hour = 23, minute = 59, second = 1,
                      microsecond = 0, tzoffset = None\<rparr> \<longrightarrow>
            compute_file_path lib (r\<lparr>datetime := ''2026-01-05T23:59:01''\<rparr>)
              = Inr ''2026/01/2026-01-05-23-59-01.md'')"
proof (intro conjI impI)
  show p: "compute_file_path lib r = Inr (path_text (year_text lib dt) dt)"
    using assms by (rule compute_file_path_valid)
  show "length (spec_path dt) = 30" by (rule spec_path_length)
  show "compute_file_path lib r = Inr (spec_path dt)" if "pad_year lib \<or> 1000 \<le> year dt"
    using p that by (simp add: spec_path_def year_text_def)
  show "\<forall>r'. datetime r' = datetime r \<longrightarrow> compute_file_path lib r' = compute_file_path lib r"
    by (simp add: compute_file_path_def)
next
  let ?dt = "\<lparr>year = 2026, month = 2, day = 13, hour = 10, minute = 31, second = 50,
           microsecond = 0, tzoffset = None\<rparr>"
  assume "parse_isoformat lib ''2026-02-13T10:31:50'' = Some ?dt"
  then have "fromisoformat lib (datetime (r\<lparr>datetime := ''2026-02-13T10:31:50''\<rparr>)) = Some ?dt"
    by (simp add: fromisoformat_def datetime_new_def days_in_month_def)
  from compute_file_path_valid [OF this]
  show "compute_file_path lib (r\<lparr>datetime := ''2026-02-13T10:31:50''\<rparr>)
      = Inr ''2026/02/2026-02-13-10-31-50.md''"
    by (simp add: path_text_def year_text_def four_digits_def two_digits_def digit_char_def)
next
  let ?dt = "\<lparr>year = 2026, month = 1, day = 5, hour = 23, minute = 59, second = 1,
           microsecond = 0, tzoffset = None\<rparr>"
  assume "parse_isoformat lib ''2026-01-05T23:59:01'' = Some ?dt"
  then have "fromisoformat lib (datetime (r\<lparr>datetime := ''2026-01-05T23:59:01''\<rparr>)) = Some ?dt"
    by (simp add: fromisoformat_def datetime_new_def days_in_month_def)
  from compute_file_path_valid [OF this]
  show "compute_file_path lib (r\<lparr>datetime := ''2026-01-05T23:59:01''\<rparr>)
      = Inr ''2026/01/2026-01-05-23-59-01.md''"
    by (simp add: path_text_def year_text_def four_digits_def two_digits_def digit_char_def)
qed

text \<open>
  The sample recording with a library that pads the year: its timestamp parses, the
  library reads both example timestamps as written, and the paths are as stated.
\<close>

theorem compute_file_path_spec_witness:
  "fromisoformat basic_library (datetime sample_recording) =
     Some \<lparr>year = 2026, month = 2, day = 13, hour = 10, minute = 31, second = 50,
           microsecond = 0, tzoffset = None\<rparr>
   \<and> pad_year basic_library
   \<and> parse_isoformat basic_library ''2026-01-05T23:59:01''
       = Some \<lparr>year = 2026, month = 1, day = 5, hour = 23, minute = 59, second = 1,
               microsecond = 0, tzoffset = None\<rparr>
   \<and> compute_file_path basic_library sample_recording = Inr ''2026/02/2026-02-13-10-31-50.md''
   \<and> compute_file_path basic_library (sample_recording\<lparr>datetime := ''2026-01-05T23:59:01''\<rparr>)
       = Inr ''2026/01/2026-01-05-23-59-01.md''"
proof -
  have 1: "pad_year basic_library" by (simp add: basic_library_def)
  have 2: "parse_isoformat basic_library ''2026-01-05T23:59:01''
       = Some \<lparr>year = 2026, month = 1, day = 5, hour = 23, minute = 59, second = 1,
               microsecond = 0, tzoffset = None\<rparr>"
    by (simp add: parse_defs)
  note t = compute_file_path_spec [OF sample_parsed]
  from t 1 have "compute_file_path basic_library sample_recording
        = Inr (spec_path \<lparr>year = 2026, month = 2, day = 13, hour = 10, minute = 31,
                          second = 50, microsecond = 0, tzoffset = None\<rparr>)"
    by blast
  then have 3: "compute_file_path basic_library sample_recording
      = Inr ''2026/02/2026-02-13-10-31-50.md''"
    by (simp add: spec_path_def path_text_def four_digits_def two_digits_def digit_char_def)
  from t 2 have 4: "compute_file_path basic_library
        (sample_recording\<lparr>datetime := ''2026-01-05T23:59:01''\<rparr>)
      = Inr ''2026/01/2026-01-05-23-59-01.md''"
    by blast
  from sample_parsed 1 2 3 4 show ?thesis by blast
qed

text \<open>
  Claim C3 as stated fails: where \<open>strftime\<close> does not pad \<open>%Y\<close>, a recording of the
  year 5 is filed under a path whose year has one digit.
\<close>

theorem year_without_padding:
  "fromisoformat glibc_library ''0005-01-01T00:00:00''
     = Some \<lparr>year = 5, month = 1, day = 1, hour = 0, minute = 0, second = 0,
             microsecond = 0, tzoffset = None\<rparr>
   \<and> compute_file_path glibc_library (sample_recording\<lparr>datetime := ''0005-01-01T00:00:00''\<rparr>)
       = Inr ''5/01/5-01-01-00-00-00.md''"
proof -
  have p: "fromisoformat glibc_library ''0005-01-01T00:00:00''
     = Some \<lparr>year = 5, month = 1, day = 1, hour = 0, minute = 0, second = 0,
             microsecond = 0, tzoffset = None\<rparr>"
    by (simp add: parse_defs)
  have "\<not> pad_year glibc_library" by (simp add: glibc_library_def)
  with p show ?thesis
    by (simp add: compute_file_path_def print_defs)
qed

text \<open>
  Claim C9, as the code has it. Two recordings whose timestamps parse get the same path
  exactly when the timestamps agree in the year, month, day, hour, minute and second they
  write. Fractions of a second and the UTC offset do not enter the path.
\<close>

theorem path_collision_iff:
  assumes "fromisoformat lib (datetime r1) = Some d1" and "fromisoformat lib (datetime r2) = Some d2"
  shows "compute_file_path lib r1 = compute_file_path lib r2 \<longleftrightarrow>
           year d1 = year d2 \<and> month d1 = month d2 \<and> day d1 = day d2
           \<and> hour d1 = hour d2 \<and> minute d1 = minute d2 \<and> second d1 = second d2"
proof
  assume "compute_file_path lib r1 = compute_file_path lib r2"
  then have "path_text (year_text lib d1) d1 = path_text (year_text lib d2) d2"
    using assms by (simp add: compute_file_path_valid)
  then show "year d1 = year d2 \<and> month d1 = month d2 \<and> day d1 = day d2
           \<and> hour d1 = hour d2 \<and> minute d1 = minute d2 \<and> second d1 = second d2"
    using assms by (intro path_text_inj fromisoformat_valid)
next
  assume "year d1 = year d2 \<and> month d1 = month d2 \<and> day d1 = day d2
           \<and> hour d1 = hour d2 \<and> minute d1 = minute d2 \<and> second d1 = second d2"
  then have "path_text (year_text lib d1) d1 = path_text (year_text lib d2) d2"
    by (simp add: path_text_def year_text_def)
  then show "compute_file_path lib r1 = compute_file_path lib r2"
    using assms by (simp add: compute_file_path_valid)
qed

lemma later_parsed:
  "fromisoformat basic_library ''2026-02-13T10:31:51'' =
     Some \<lparr>year = 2026, month = 2, day = 13, hour = 10, minute = 31, second = 51,
           microsecond = 0, tzoffset = None\<rparr>"
  by (simp add: parse_defs)

text \<open>
  One second apart the paths differ; two recordings with the same timestamp and different
  source directories share a path.
\<close>

theorem path_collision_iff_witness:
  "compute_file_path basic_library sample_recording
     \<noteq> compute_file_path basic_library (sample_recording\<lparr>datetime := ''2026-02-13T10:31:51''\<rparr>)
   \<and> compute_file_path basic_library sample_recording
     = compute_file_path basic_library (sample_recording\<lparr>source_dir := ''1770978711''\<rparr>)"
  using path_collision_iff [of basic_library sample_recording _ "sample_recording\<lparr>datetime := ''2026-02-13T10:31:51''\<rparr>", OF sample_parsed]
    path_collision_iff [of basic_library sample_recording _ "sample_recording\<lparr>source_dir := ''1770978711''\<rparr>", OF sample_parsed]
    later_parsed sample_parsed
  by simp

lemma utc_parsed:
  "fromisoformat basic_library ''2026-02-13T10:31:50+00:00'' =
     Some \<lparr>year = 2026, month = 2, day = 13, hour = 10, minute = 31, second = 50,
           microsecond = 0, tzoffset = Some 0\<rparr>"
  by (simp add: parse_defs)

lemma plus5_parsed:
  "fromisoformat basic_library ''2026-02-13T10:31:50+05:00'' =
     Some \<lparr>year = 2026, month = 2, day = 13, hour = 10, minute = 31, second = 50,
           microsecond = 0, tzoffset = Some 18000000000\<rparr>"
  by (simp add: parse_defs)

text \<open>
  Claim C9 as stated fails: the timestamps \<open>2026-02-13T10:31:50+00:00\<close> and
  \<open>2026-02-13T10:31:50+05:00\<close> are distinct, they denote instants five hours apart, and
  both recordings are filed under \<open>2026/02/2026-02-13-10-31-50.md\<close>.
\<close>

theorem distinct_timestamps_collide:
  "datetime (sample_recording\<lparr>datetime := ''2026-02-13T10:31:50+00:00''\<rparr>)
     \<noteq> datetime (sample_recording\<lparr>datetime := ''2026-02-13T10:31:50+05:00''\<rparr>)
   \<and> fromisoformat basic_library ''2026-02-13T10:31:50+00:00''
       \<noteq> fromisoformat basic_library ''2026-02-13T10:31:50+05:00''
   \<and> compute_file_path basic_library (sample_recording\<lparr>datetime := ''2026-02-13T10:31:50+00:00''\<rparr>)
       = Inr ''2026/02/2026-02-13-10-31-50.md''
   \<and> compute_file_path basic_library (sample_recording\<lparr>datetime := ''2026-02-13T10:31:50+05:00''\<rparr>)
       = Inr ''2026/02/2026-02-13-10-31-50.md''"
proof -
  have "pad_year basic_library" by (simp add: basic_library_def)
  then show ?thesis
    using utc_parsed plus5_parsed
    by (simp add: compute_file_path_def print_defs)
qed

subsection \<open>The duration string\<close>

lemma format_duration_parts:
  fixes d :: int
  defines "t \<equiv> d div 1000"
  shows "format_duration d =
           (if 0 < t div 3600 then
              str_int (t div 3600) @ ''h '' @ str_int (t div 60 mod 60) @ ''m ''
              @ str_int (t mod 60) @ ''s''
            else if 0 < t div 60 mod 60 then
              str_int (t div 60 mod 60) @ ''m '' @ str_int (t mod 60) @ ''s''
            else str_int (t mod 60) @ ''s'')"
proof -
  have "t mod 3600 = 60 * (t div 60 mod 60) + t mod 60"
    using zmod_zmult2_eq [of 60 t 60] by simp
  then have m: "t mod 3600 div 60 = t div 60 mod 60"
    by simp
  show ?thesis
    unfolding format_duration_def Let_def t_def [symmetric] m by (rule refl)
qed

lemma format_duration_eq_spec:
  assumes "0 \<le> d"
  shows "format_duration d = spec_duration d"
proof -
  define t where "t = d div 1000"
  have e1: "d div 60000 = t div 60"
    using zdiv_zmult2_eq [of 60 d 1000] by (simp add: t_def)
  have e2: "d div 3600000 = t div 3600"
    using zdiv_zmult2_eq [of 3600 d 1000] by (simp add: t_def)
  have e3: "t div 3600 = t div 60 div 60"
    using zdiv_zmult2_eq [of 60 t 60] by simp
  have p: "format_duration d =
           (if 0 < t div 3600 then
              str_int (t div 3600) @ ''h '' @ str_int (t div 60 mod 60) @ ''m ''
              @ str_int (t mod 60) @ ''s''
            else if 0 < t div 60 mod 60 then
              str_int (t div 60 mod 60) @ ''m '' @ str_int (t mod 60) @ ''s''
            else str_int (t mod 60) @ ''s'')"
    unfolding t_def by (rule format_duration_parts)
  consider "d < 60000" | "60000 \<le> d" "d < 3600000" | "3600000 \<le> d" by linarith
  then show ?thesis
  proof cases
    case 1
    with assms have "d div 60000 = 0" by simp
    then have z: "t div 60 = 0" by (simp add: e1)
    then have "t mod 60 = t" using mult_div_mod_eq [of 60 t] by simp
    with z 1 show ?thesis
      by (simp add: p e3 spec_duration_def t_def)
  next
    case 2
    with assms have "d div 3600000 = 0" by simp
    then have z: "t div 60 div 60 = 0" by (simp add: e2 e3)
    from 2 have pos: "0 < t div 60" using pos_imp_zdiv_pos_iff [of 60000 d] by (simp add: e1)
    from z pos have "t div 60 mod 60 = t div 60"
      by (simp add: zdiv_eq_0_iff)
    with z pos 2 show ?thesis
      by (simp add: p e3 e1 spec_duration_def t_def [symmetric])
  next
    case 3
    then have "0 < t div 3600" using pos_imp_zdiv_pos_iff [of 3600000 d] by (simp add: e2)
    with 3 show ?thesis
      by (simp add: p e1 e2 spec_duration_def t_def [symmetric])
  qed
qed

text \<open>
  Claim C2. For every duration \<open>d \<ge> 0\<close> in milliseconds, \<open>_format_duration\<close> yields
  \<open>Ns\<close> when \<open>d < 60000\<close>, \<open>Mm Ss\<close> when \<open>60000 \<le> d < 3600000\<close> and
  \<open>Hh Mm Ss\<close> otherwise, with \<open>N = d div 1000\<close>, \<open>H = d div 3600000\<close>,
  \<open>M = d div 60000 mod 60\<close> and \<open>S = d div 1000 mod 60\<close>; 90000 ms gives
  \<open>1m 30s\<close> and 3723000 ms gives \<open>1h 2m 3s\<close>.
\<close>

theorem format_duration_spec:
  assumes "0 \<le> d"
  shows "format_duration d = spec_duration d
         \<and> format_duration 90000 = ''1m 30s''
         \<and> format_duration 3723000 = ''1h 2m 3s''"
proof (intro conjI)
  show "format_duration d = spec_duration d"
    using assms by (rule format_duration_eq_spec)
  show "format_duration 90000 = ''1m 30s''"
    by (simp add: format_duration_def print_defs)
  show "format_duration 3723000 = ''1h 2m 3s''"
    by (simp add: format_duration_def print_defs)
qed

text \<open>A duration of 45 seconds.\<close>

theorem format_duration_spec_witness:
  "(0::int) \<le> 45000 \<and> format_duration 45000 = ''45s''"
  using format_duration_spec [of 45000]
  by (simp add: spec_duration_def print_defs)
subsection \<open>The formatted document\<close>

lemma format_recording_raises:
  assumes "format_error env r = Some e"
  shows "format_recording env w r = (Inl e, w\<lparr>ticks := ticks w + 1\<rparr>)"
  using assms
  by (auto simp: format_recording_def build_frontmatter_def build_body_def format_error_def
      split: option.splits sum.splits)

lemma format_recording_returns:
  assumes "fromisoformat (library env) (datetime r) = Some dt"
    and "segment_lines (format_timestamp env) (segments r) = Inr lines"
  shows "format_recording env w r
           = (Inr (join nl (frontmatter_parts (clock env (ticks w)) r) @ nl
                   @ join nl (body_parts (library env) dt r lines (clock env (ticks w + 1)))),
              w\<lparr>ticks := ticks w + 2\<rparr>)"
  using assms
  by (simp add: format_recording_def build_frontmatter_def build_body_def)

lemma format_error_cases:
  obtains e where "format_error env r = Some e"
  | dt lines where "format_error env r = None" "fromisoformat (library env) (datetime r) = Some dt"
      "segment_lines (format_timestamp env) (segments r) = Inr lines"
proof (cases "fromisoformat (library env) (datetime r)")
  case None
  then have "format_error env r = Some ValueError" by (simp add: format_error_def)
  then show ?thesis by (rule that(1))
next
  case (Some dt)
  show ?thesis
  proof (cases "segment_lines (format_timestamp env) (segments r)")
    case (Inl e)
    with Some have "format_error env r = Some e" by (simp add: format_error_def)
    then show ?thesis by (rule that(1))
  next
    case (Inr lines)
    with Some have "format_error env r = None" by (simp add: format_error_def)
    then show ?thesis using Some Inr by (rule that(2))
  qed
qed

lemma format_recording_world:
  "snd (format_recording env w r)
     = w\<lparr>ticks := ticks w + (if format_error env r = None then 2 else 1)\<rparr>"
proof (cases rule: format_error_cases [of env r])
  case (1 e)
  then show ?thesis by (simp add: format_recording_raises)
next
  case (2 dt lines)
  then show ?thesis by (simp add: format_recording_returns)
qed

text \<open>
  Claim C4, as the code has it. \<open>format_recording\<close> changes nothing in the world but
  the number of times the clock was read: twice when the document is built, for the
  \<open>archived_at\<close> line of the header and for the date of the footer, and once when
  building the body raises. Two calls on the same recording, with the same library and the
  same printing of offsets, return the same text, or raise the same exception, whenever the
  first readings print the same ISO timestamp and the second readings fall on the same day.
\<close>

theorem format_recording_clock:
  assumes "library env' = library env" and "format_timestamp env' = format_timestamp env"
    and "isoformat (clock env' (ticks w')) = isoformat (clock env (ticks w))"
    and "strftime (library env) (clock env' (ticks w' + 1)) ''%Y-%m-%d''
           = strftime (library env) (clock env (ticks w + 1)) ''%Y-%m-%d''"
  shows "fst (format_recording env' w' r) = fst (format_recording env w r)
         \<and> snd (format_recording env w r)
             = w\<lparr>ticks := ticks w + (if format_error env r = None then 2 else 1)\<rparr>"
proof
  have fe: "format_error env' r = format_error env r"
    unfolding format_error_def assms(1,2) by (rule refl)
  show "fst (format_recording env' w' r) = fst (format_recording env w r)"
  proof (cases rule: format_error_cases [of env r])
    case (1 e)
    then show ?thesis using fe by (simp add: format_recording_raises)
  next
    case (2 dt lines)
    have "frontmatter_parts (clock env' (ticks w')) r = frontmatter_parts (clock env (ticks w)) r"
      using assms(3) by (simp add: frontmatter_parts_def)
    moreover have "body_parts (library env) dt r lines (clock env' (ticks w' + 1))
        = body_parts (library env) dt r lines (clock env (ticks w + 1))"
      using assms(4) by (simp add: body_parts_def)
    ultimately show ?thesis
      using 2 assms(1,2)
      by (simp add: format_recording_returns [of env r dt lines]
          format_recording_returns [of env' r dt lines])
  qed
  show "snd (format_recording env w r)
      = w\<lparr>ticks := ticks w + (if format_error env r = None then 2 else 1)\<rparr>"
    by (rule format_recording_world)
qed

lemma sample_lines:
  "segment_lines print_offset (segments sample_recording)
     = Inr [''- [00:01.7 '' @ arrow @ '' 00:05.0] Hello world.'']"
  by (simp add: sample_recording_def print_defs)

lemma example_env_fields:
  "library example_env = basic_library" "format_timestamp example_env = print_offset"
  "clock example_env = (\<lambda>n. clock_a)" "repo_valid example_env"
  "sync_raises example_env = None" "push_raises example_env = None"
  "store_fails example_env = (\<lambda>op. False)"
  "commit_outcome example_env = (\<lambda>n. if n = 0 then None else Some ''abc123'')"
  by (simp_all add: example_env_def)

lemma sample_format_error: "format_error example_env sample_recording = None"
  by (simp add: format_error_def example_env_fields sample_parsed sample_lines)

text \<open>
  The sample recording formatted on a machine that has never run the archiver, with a
  clock that stands still and with one that moves on by eight hours between the readings:
  the same document, and two readings of the clock.
\<close>

theorem format_recording_clock_witness:
  "isoformat (clock (example_env\<lparr>clock := (\<lambda>n. if n = 0 then clock_a else clock_a\<lparr>hour := 17\<rparr>)\<rparr>)
                (ticks fresh_world))
     = isoformat (clock example_env (ticks fresh_world))
   \<and> strftime (library example_env)
        (clock (example_env\<lparr>clock := (\<lambda>n. if n = 0 then clock_a else clock_a\<lparr>hour := 17\<rparr>)\<rparr>)
           (ticks fresh_world + 1)) ''%Y-%m-%d''
     = strftime (library example_env) (clock example_env (ticks fresh_world + 1)) ''%Y-%m-%d''
   \<and> fst (format_recording
            (example_env\<lparr>clock := (\<lambda>n. if n = 0 then clock_a else clock_a\<lparr>hour := 17\<rparr>)\<rparr>)
            fresh_world sample_recording)
     = fst (format_recording example_env fresh_world sample_recording)
   \<and> snd (format_recording example_env fresh_world sample_recording) = fresh_world\<lparr>ticks := 2\<rparr>"
proof -
  let ?env = "example_env\<lparr>clock := (\<lambda>n. if n = 0 then clock_a else clock_a\<lparr>hour := 17\<rparr>)\<rparr>"
  have 1: "library ?env = library example_env" by simp
  have 2: "format_timestamp ?env = format_timestamp example_env" by simp
  have 3: "isoformat (clock ?env (ticks fresh_world))
      = isoformat (clock example_env (ticks fresh_world))"
    by (simp add: example_env_fields fresh_world_def)
  have 4: "strftime (library example_env) (clock ?env (ticks fresh_world + 1)) ''%Y-%m-%d''
      = strftime (library example_env) (clock example_env (ticks fresh_world + 1)) ''%Y-%m-%d''"
    by (simp add: example_env_fields clock_a_def directive_def)
  from format_recording_clock [OF 1 2 3 4, of sample_recording] 3 4
  show ?thesis
    by (simp add: sample_format_error fresh_world_def)
qed

text \<open>
  Claim C4 as stated fails: formatted on 14 February and on 15 February, the same
  recording gives two different documents.
\<close>

theorem format_recording_depends_on_clock:
  "fst (format_recording example_env fresh_world sample_recording)
     \<noteq> fst (format_recording (example_env\<lparr>clock := (\<lambda>n. clock_b)\<rparr>) fresh_world sample_recording)"
proof -
  let ?env = "example_env\<lparr>clock := (\<lambda>n. clock_b)\<rparr>"
  have "join nl (frontmatter_parts clock_a sample_recording)
      \<noteq> join nl (frontmatter_parts clock_b sample_recording)"
    by (simp add: frontmatter_parts_def sample_recording_def clock_a_def clock_b_def
        isoformat_def print_defs nl_def dq_def)
  moreover have "length (join nl (frontmatter_parts clock_a sample_recording))
      = length (join nl (frontmatter_parts clock_b sample_recording))"
    by (simp add: frontmatter_parts_def sample_recording_def clock_a_def clock_b_def
        isoformat_def print_defs nl_def dq_def)
  moreover have "fromisoformat (library ?env) (datetime sample_recording)
      = Some \<lparr>year = 2026, month = 2, day = 13, hour = 10, minute = 31, second = 50,
           microsecond = 0, tzoffset = None\<rparr>"
    "segment_lines (format_timestamp ?env) (segments sample_recording)
      = Inr [''- [00:01.7 '' @ arrow @ '' 00:05.0] Hello world.'']"
    "fromisoformat (library example_env) (datetime sample_recording)
      = Some \<lparr>year = 2026, month = 2, day = 13, hour = 10, minute = 31, second = 50,
           microsecond = 0, tzoffset = None\<rparr>"
    "segment_lines (format_timestamp example_env) (segments sample_recording)
      = Inr [''- [00:01.7 '' @ arrow @ '' 00:05.0] Hello world.'']"
    using sample_parsed sample_lines by (simp_all add: example_env_fields)
  ultimately show ?thesis
    by (simp add: format_recording_returns example_env_fields)
qed

subsection \<open>The transcription section\<close>

lemma transcription_strip: "transcription lib r = strip lib (chosen_text r)"
  by (simp add: transcription_def chosen_text_def)

lemma join_Cons: "ys \<noteq> [] \<Longrightarrow> join sep (x # ys) = x @ sep @ join sep ys"
  by (cases ys) simp_all

lemma body_text:
  "join nl (body_parts lib dt r lines now)
     = body_head lib dt (modeName r) (duration r)
       @ (if strip lib (chosen_text r) = [] then [] else transcription_section lib r @ nl)
       @ body_tail lib (llmResult r) (segments r \<noteq> []) lines now"
proof -
  define title where "title = nl @ ''# Recording '' @ em_dash @ '' ''
     @ strftime lib dt ''%Y-%m-%d %H:%M'' @ nl"
  define line where "line = ''**Mode**: '' @ modeName r @ '' | **Duration**: ''
     @ format_duration (duration r) @ nl"
  define rest where "rest =
       (case llmResult r of
           None \<Rightarrow> []
         | Some l \<Rightarrow> if l \<noteq> [] then [''## Summary'' @ nl @ nl @ l @ nl] else [])
        @ (if segments r \<noteq> [] then [''## Segments'' @ nl @ nl @ join nl lines @ nl] else [])
        @ [nl @ ''---'' @ nl @ ''*Archived: '' @ strftime lib now ''%Y-%m-%d'' @ ''*'' @ nl]"
  have rest: "rest \<noteq> []" by (simp add: rest_def)
  have h: "body_head lib dt (modeName r) (duration r) = title @ nl @ line @ nl"
    by (simp add: body_head_def title_def line_def)
  have t: "body_tail lib (llmResult r) (segments r \<noteq> []) lines now = join nl rest"
    by (simp add: body_tail_def rest_def)
  have p: "body_parts lib dt r lines now
      = title # line # (if strip lib (chosen_text r) = [] then []
                         else [transcription_section lib r]) @ rest"
    by (simp add: body_parts_def transcription_strip transcription_section_def title_def
        line_def rest_def)
  show ?thesis
    unfolding p h t using rest by (simp add: join_Cons)
qed

text \<open>
  Claim C5, as the code has it. \<open>_build_body\<close> raises when the timestamp does not
  parse and when a segment offset cannot be printed. Otherwise the body is the title line
  and the line of mode and duration, then the transcription section, then the summary,
  the segments and the footer. The text of the section is what \<open>str.strip\<close> makes of the
  cleaned result when that is not empty and of the raw text otherwise; the section stands
  in the body exactly when this text is not empty.
\<close>

theorem build_body_transcription:
  "fst (build_body env w r) =
     (case fromisoformat (library env) (datetime r) of
        None \<Rightarrow> Inl ValueError
      | Some dt \<Rightarrow>
          (case segment_lines (format_timestamp env) (segments r) of
             Inl e \<Rightarrow> Inl e
           | Inr lines \<Rightarrow>
               Inr (body_head (library env) dt (modeName r) (duration r)
                    @ (if strip (library env) (chosen_text r) = [] then []
                       else transcription_section (library env) r @ nl)
                    @ body_tail (library env) (llmResult r) (segments r \<noteq> []) lines
                        (clock env (ticks w)))))"
  by (simp add: build_body_def body_text split: option.splits sum.splits)

text \<open>
  The sample recording: the cleaned text is taken, and the section stands in the body
  between the line of mode and duration and the segments.
\<close>

theorem build_body_transcription_witness:
  "strip (library example_env) (chosen_text sample_recording) = ''Hello world. How are you?''
   \<and> fst (build_body example_env fresh_world sample_recording)
     = Inr (nl @ ''# Recording '' @ em_dash @ '' 2026-02-13 10:31'' @ nl @ nl
            @ ''**Mode**: Meeting | **Duration**: 13s'' @ nl @ nl
            @ ''## Transcription'' @ nl @ nl @ ''Hello world. How are you?'' @ nl @ nl
            @ ''## Segments'' @ nl @ nl
            @ ''- [00:01.7 '' @ arrow @ '' 00:05.0] Hello world.'' @ nl @ nl
            @ nl @ ''---'' @ nl @ ''*Archived: 2026-02-14*'' @ nl)"
proof -
  have s: "strip (library example_env) (chosen_text sample_recording)
      = ''Hello world. How are you?''"
    by (simp add: example_env_fields basic_library_def chosen_text_def sample_recording_def
        ascii_strip_def ascii_space_def)
  have p: "fromisoformat (library example_env) (datetime sample_recording)
      = Some \<lparr>year = 2026, month = 2, day = 13, hour = 10, minute = 31, second = 50,
           microsecond = 0, tzoffset = None\<rparr>"
    "segment_lines (format_timestamp example_env) (segments sample_recording)
      = Inr [''- [00:01.7 '' @ arrow @ '' 00:05.0] Hello world.'']"
    using sample_parsed sample_lines by (simp_all add: example_env_fields)
  have y: "pad_year basic_library" by (simp add: basic_library_def)
  have h: "body_head basic_library
       \<lparr>year = 2026, month = 2, day = 13, hour = 10, minute = 31, second = 50,
           microsecond = 0, tzoffset = None\<rparr> (modeName sample_recording)
       (duration sample_recording)
     = nl @ ''# Recording '' @ em_dash @ '' 2026-02-13 10:31'' @ nl @ nl
            @ ''**Mode**: Meeting | **Duration**: 13s'' @ nl @ nl"
    using y by (simp add: body_head_def sample_recording_def format_duration_def print_defs)
  have t: "body_tail basic_library (llmResult sample_recording)
       (segments sample_recording \<noteq> [])
       [''- [00:01.7 '' @ arrow @ '' 00:05.0] Hello world.''] clock_a
     = ''## Segments'' @ nl @ nl
            @ ''- [00:01.7 '' @ arrow @ '' 00:05.0] Hello world.'' @ nl @ nl
            @ nl @ ''---'' @ nl @ ''*Archived: 2026-02-14*'' @ nl"
    using y by (simp add: body_tail_def sample_recording_def clock_a_def print_defs)
  from build_body_transcription [of example_env fresh_world sample_recording, unfolded p]
  have "fst (build_body example_env fresh_world sample_recording)
      = Inr (body_head basic_library
       \<lparr>year = 2026, month = 2, day = 13, hour = 10, minute = 31, second = 50,
           microsecond = 0, tzoffset = None\<rparr> (modeName sample_recording)
       (duration sample_recording)
       @ (transcription_section basic_library sample_recording @ nl)
       @ body_tail basic_library (llmResult sample_recording)
       (segments sample_recording \<noteq> [])
       [''- [00:01.7 '' @ arrow @ '' 00:05.0] Hello world.''] clock_a)"
    using s by (simp add: example_env_fields)
  then show ?thesis
    unfolding h t using s
    by (simp add: transcription_section_def example_env_fields)
qed

text \<open>
  Claim C5 as stated fails: a recording whose cleaned and raw texts are both empty is
  given a body without a transcription section.
\<close>

theorem body_without_transcription:
  "fst (build_body example_env fresh_world silent_recording) = Inr silent_body
   \<and> \<not> sublist ''## Transcription'' silent_body"
proof
  have p: "fromisoformat (library example_env) (datetime silent_recording) =
     Some \<lparr>year = 2026, month = 2, day = 13, hour = 10, minute = 31, second = 50,
           microsecond = 0, tzoffset = None\<rparr>"
    using sample_parsed by (simp add: silent_recording_def example_env_fields)
  have l: "segment_lines (format_timestamp example_env) (segments silent_recording) = Inr []"
    by (simp add: silent_recording_def)
  have y: "pad_year basic_library" "strip basic_library = ascii_strip"
    by (simp_all add: basic_library_def)
  have "join nl (body_parts basic_library
       \<lparr>year = 2026, month = 2, day = 13, hour = 10, minute = 31, second = 50,
           microsecond = 0, tzoffset = None\<rparr> silent_recording [] clock_a) = silent_body"
    using y
    by (simp add: body_parts_def transcription_def
        silent_recording_def sample_recording_def silent_body_def clock_a_def
        format_duration_def ascii_strip_def print_defs)
  then show "fst (build_body example_env fresh_world silent_recording) = Inr silent_body"
    unfolding build_body_def p l by (simp add: example_env_fields)
  show "\<not> sublist ''## Transcription'' silent_body"
    by (simp add: silent_body_def nl_def em_dash_def sublist_code)
qed

subsection \<open>The scanner\<close>

lemma datetime_ge_cases:
  "datetime_ge a b =
     (if (tzoffset a = None) = (tzoffset b = None)
      then Inr (datetime_ge a b = Inr True) else Inl TypeError)"
  by (auto simp: datetime_ge_def split: option.splits)

lemma filter_since_comparable:
  assumes "list_all (\<lambda>r. case fromisoformat lib (datetime r) of
                            None \<Rightarrow> False
                          | Some dt \<Rightarrow> (tzoffset dt = None) = (tzoffset since_dt = None)) rs"
  shows "filter_since lib since_dt rs =
           Inr (filter (\<lambda>r. case fromisoformat lib (datetime r) of
                                Some dt \<Rightarrow> datetime_ge dt since_dt = Inr True
                              | None \<Rightarrow> False) rs)"
  using assms
proof (induction rs)
  case Nil
  then show ?case by simp
next
  case (Cons r rs)
  then obtain dt where dt: "fromisoformat lib (datetime r) = Some dt"
    "(tzoffset dt = None) = (tzoffset since_dt = None)"
    by (auto split: option.splits)
  then have "datetime_ge dt since_dt = Inr (datetime_ge dt since_dt = Inr True)"
    using datetime_ge_cases [of dt since_dt] by simp
  with Cons dt show ?case
    by (cases "datetime_ge dt since_dt = Inr True") auto
qed

lemma filter_since_incomparable:
  assumes "\<not> list_all (\<lambda>r. case fromisoformat lib (datetime r) of
                            None \<Rightarrow> False
                          | Some dt \<Rightarrow> (tzoffset dt = None) = (tzoffset since_dt = None)) rs"
  shows "filter_since lib since_dt rs = Inl ValueError
         \<or> filter_since lib since_dt rs = Inl TypeError"
  using assms
proof (induction rs)
  case Nil
  then show ?case by simp
next
  case (Cons r rs)
  show ?case
  proof (cases "fromisoformat lib (datetime r)")
    case None
    then show ?thesis by simp
  next
    case (Some dt)
    show ?thesis
    proof (cases "(tzoffset dt = None) = (tzoffset since_dt = None)")
      case True
      with Cons Some have e: "filter_since lib since_dt rs = Inl ValueError
         \<or> filter_since lib since_dt rs = Inl TypeError" by auto
      from True have "datetime_ge dt since_dt = Inr (datetime_ge dt since_dt = Inr True)"
        using datetime_ge_cases [of dt since_dt] by simp
      then obtain b where "datetime_ge dt since_dt = Inr b" ..
      with Some e show ?thesis by auto
    next
      case False
      then have "datetime_ge dt since_dt = Inl TypeError"
        by (auto simp: datetime_ge_def split: option.splits)
      with Some show ?thesis by simp
    qed
  qed
qed

lemma mode_in: "(x \<in> set (map f ms)) = list_ex (\<lambda>m. f m = x) ms"
  by (induction ms) auto

lemma mode_filter:
  "(if modes \<noteq> None \<and> modes \<noteq> Some []
    then filter (\<lambda>r. lower lib (modeName r) \<in> set (map (lower lib) (the modes))) rs else rs)
   = filter (mode_matches lib modes) rs"
proof (cases modes)
  case None
  then show ?thesis by (simp add: mode_matches_def)
next
  case (Some ms)
  show ?thesis
  proof (cases "ms = []")
    case True
    with Some show ?thesis by (simp add: mode_matches_def)
  next
    case False
    have "filter (\<lambda>r. lower lib (modeName r) \<in> set (map (lower lib) ms)) rs
        = filter (mode_matches lib (Some ms)) rs"
      by (rule filter_cong) (simp_all only: mode_in mode_matches_def option.case False simp_thms)
    with Some False show ?thesis by simp
  qed
qed

lemma scan_directory:
  "scan lib (Directory entries) modes min_ms since =
      (case (if since \<noteq> None \<and> since \<noteq> Some [] then
               (case fromisoformat lib (the since) of
                  None \<Rightarrow> Inl ValueError
                | Some since_dt \<Rightarrow>
                    filter_since lib since_dt
                      [r \<leftarrow> load_recordings entries. mode_matches lib modes r \<and> duration_ok min_ms r])
             else Inr [r \<leftarrow> load_recordings entries. mode_matches lib modes r \<and> duration_ok min_ms r]) of
         Inl e \<Rightarrow> Inl e
       | Inr recordings \<Rightarrow> Inr (sort_key datetime recordings))"
proof -
  define rs where "rs = load_recordings entries"
  define rs1 where "rs1 = (if modes \<noteq> None \<and> modes \<noteq> Some []
     then filter (\<lambda>r. lower lib (modeName r) \<in> set (map (lower lib) (the modes))) rs else rs)"
  define rs2 where "rs2 = (if min_ms > 0 then filter (\<lambda>r. duration r \<ge> min_ms) rs1 else rs1)"
  have s: "scan lib (Directory entries) modes min_ms since =
      (case (if since \<noteq> None \<and> since \<noteq> Some [] then
               (case fromisoformat lib (the since) of
                  None \<Rightarrow> Inl ValueError
                | Some since_dt \<Rightarrow> filter_since lib since_dt rs2)
             else Inr rs2) of
         Inl e \<Rightarrow> Inl e
       | Inr recordings \<Rightarrow> Inr (sort_key datetime recordings))"
    unfolding scan_def Let_def rs_def rs1_def rs2_def by simp
  have 1: "rs1 = filter (mode_matches lib modes) rs"
    unfolding rs1_def by (rule mode_filter)
  have 2: "rs2 = [r \<leftarrow> rs. mode_matches lib modes r \<and> duration_ok min_ms r]"
    by (simp add: rs2_def 1 duration_ok_def)
  show ?thesis unfolding s 2 rs_def by (rule refl)
qed

lemma scan_comparable:
  assumes "comparable lib since
             [r \<leftarrow> load_recordings entries. mode_matches lib modes r \<and> duration_ok min_ms r]"
  shows "scan lib (Directory entries) modes min_ms since =
           Inr (sort_key datetime
                  [r \<leftarrow> load_recordings entries.
                     mode_matches lib modes r \<and> duration_ok min_ms r \<and> since_ok lib since r])"
proof -
  define rs2 where
    "rs2 = [r \<leftarrow> load_recordings entries. mode_matches lib modes r \<and> duration_ok min_ms r]"
  note s = scan_directory [of lib entries modes min_ms since, folded rs2_def]
  have c: "comparable lib since rs2" using assms by (simp add: rs2_def)
  show ?thesis
  proof (cases "since \<noteq> None \<and> since \<noteq> Some []")
    case False
    then have so: "\<And>r. since_ok lib since r" by (auto simp: since_ok_def)
    from False have "scan lib (Directory entries) modes min_ms since = Inr (sort_key datetime rs2)"
      unfolding s by auto
    then show ?thesis by (simp add: rs2_def so)
  next
    case True
    then obtain sv where sv: "since = Some sv" "sv \<noteq> []" by auto
    with c obtain since_dt where sd: "fromisoformat lib sv = Some since_dt"
      and a: "list_all (\<lambda>r. case fromisoformat lib (datetime r) of
                            None \<Rightarrow> False
                          | Some dt \<Rightarrow> (tzoffset dt = None) = (tzoffset since_dt = None)) rs2"
      by (auto simp: comparable_def split: option.splits)
    have "filter (\<lambda>r. case fromisoformat lib (datetime r) of
                                Some dt \<Rightarrow> datetime_ge dt since_dt = Inr True
                              | None \<Rightarrow> False) rs2 = filter (since_ok lib since) rs2"
      by (rule filter_cong) (auto simp: since_ok_def sv sd split: option.splits)
    with filter_since_comparable [OF a]
    have "filter_since lib since_dt rs2 = Inr (filter (since_ok lib since) rs2)" by simp
    then have "scan lib (Directory entries) modes min_ms since
        = Inr (sort_key datetime (filter (since_ok lib since) rs2))"
      unfolding s by (simp add: sv sd)
    moreover have "filter (since_ok lib since) rs2
        = [r \<leftarrow> load_recordings entries.
             mode_matches lib modes r \<and> duration_ok min_ms r \<and> since_ok lib since r]"
      by (simp add: rs2_def conj_commute conj_left_commute)
    ultimately show ?thesis by simp
  qed
qed

lemma scan_incomparable:
  assumes "\<not> comparable lib since
             [r \<leftarrow> load_recordings entries. mode_matches lib modes r \<and> duration_ok min_ms r]"
  shows "scan lib (Directory entries) modes min_ms since = Inl ValueError
         \<or> scan lib (Directory entries) modes min_ms since = Inl TypeError"
proof -
  define rs2 where
    "rs2 = [r \<leftarrow> load_recordings entries. mode_matches lib modes r \<and> duration_ok min_ms r]"
  note s = scan_directory [of lib entries modes min_ms since, folded rs2_def]
  have c: "\<not> comparable lib since rs2" using assms by (simp add: rs2_def)
  then obtain sv where sv: "since = Some sv" "sv \<noteq> []"
    by (auto simp: comparable_def split: option.splits)
  show ?thesis
  proof (cases "fromisoformat lib sv")
    case None
    with sv show ?thesis unfolding s by simp
  next
    case since_dt: (Some since_dt)
    with c sv have "\<not> list_all (\<lambda>r. case fromisoformat lib (datetime r) of
                            None \<Rightarrow> False
                          | Some dt \<Rightarrow> (tzoffset dt = None) = (tzoffset since_dt = None)) rs2"
      by (simp add: comparable_def)
    from filter_since_incomparable [OF this]
    have "filter_since lib since_dt rs2 = Inl ValueError
         \<or> filter_since lib since_dt rs2 = Inl TypeError" .
    with sv since_dt show ?thesis unfolding s by auto
  qed
qed

text \<open>
  Claim C1, as the code has it. When the root path exists and cannot be listed the scan
  raises; when it is missing the scan returns the empty list. Otherwise, when the since
  bound (if one is given) parses and the timestamp of every recording that passes the mode
  and duration filters parses and is of the same kind as the bound (both with a UTC offset
  or both without), the scan returns exactly the loaded recordings whose mode equals one
  of the given modes after \<open>str.lower\<close> (all of them for an absent or empty mode list),
  whose duration is at least the threshold (when the threshold is positive) and whose
  timestamp, compared as a date-time, is at or after the bound; the result is sorted
  ascending by the timestamp string. In every other case the scan raises \<open>ValueError\<close>
  or \<open>TypeError\<close>.
\<close>

theorem scan_spec:
  "if root = Unlistable then scan lib root modes min_ms since = Inl OSError
   else if root = Missing
      \<or> comparable lib since
           [r \<leftarrow> parsed_recordings root. mode_matches lib modes r \<and> duration_ok min_ms r]
   then scan lib root modes min_ms since
          = Inr (sort_key datetime
                   [r \<leftarrow> parsed_recordings root.
                      mode_matches lib modes r \<and> duration_ok min_ms r \<and> since_ok lib since r])
        \<and> sorted (map datetime
                     (sort_key datetime
                        [r \<leftarrow> parsed_recordings root.
                           mode_matches lib modes r \<and> duration_ok min_ms r
                           \<and> since_ok lib since r]))
   else scan lib root modes min_ms since = Inl ValueError
        \<or> scan lib root modes min_ms since = Inl TypeError"
proof (cases root)
  case Missing
  then show ?thesis by (simp add: scan_def parsed_recordings_def)
next
  case Unlistable
  then show ?thesis by (simp add: scan_def)
next
  case (Directory entries)
  have p: "parsed_recordings (Directory entries) = load_recordings entries"
    by (simp add: parsed_recordings_def)
  show ?thesis
  proof (cases "comparable lib since
      [r \<leftarrow> load_recordings entries. mode_matches lib modes r \<and> duration_ok min_ms r]")
    case True
    from scan_comparable [OF True] True show ?thesis unfolding Directory p by simp
  next
    case c: False
    from scan_incomparable [OF c] c show ?thesis unfolding Directory p by simp
  qed
qed

lemma example_parsed:
  "fromisoformat basic_library ''2026-02-10'' =
     Some \<lparr>year = 2026, month = 2, day = 10, hour = 0, minute = 0, second = 0,
           microsecond = 0, tzoffset = None\<rparr>"
  "fromisoformat basic_library ''2026-02-15T18:00:00'' =
     Some \<lparr>year = 2026, month = 2, day = 15, hour = 18, minute = 0, second = 0,
           microsecond = 0, tzoffset = None\<rparr>"
  "fromisoformat basic_library ''2026-02-10T08:00:00'' =
     Some \<lparr>year = 2026, month = 2, day = 10, hour = 8, minute = 0, second = 0,
           microsecond = 0, tzoffset = None\<rparr>"
  "fromisoformat basic_library ''2026-02-01T10:00:00'' =
     Some \<lparr>year = 2026, month = 2, day = 1, hour = 10, minute = 0, second = 0,
           microsecond = 0, tzoffset = None\<rparr>"
  by (simp_all add: parse_defs)

lemma example_lower:
  "lower basic_library ''meeting'' = ''meeting''" "lower basic_library ''Meeting'' = ''meeting''"
  "lower basic_library ''Default'' = ''default''"
  by (simp_all add: basic_library_def ascii_lower_def ascii_lower_char_def)

text \<open>
  The example directory scanned for mode \<open>meeting\<close>, at least one second, since
  \<open>2026-02-10\<close>: the early and the late meeting, in that order.
\<close>

theorem scan_spec_witness:
  "scan basic_library example_root (Some [''meeting'']) 1000 (Some ''2026-02-10'')
     = Inr [sample_recording\<lparr>source_dir := ''1770978710'', datetime := ''2026-02-10T08:00:00''\<rparr>,
            sample_recording\<lparr>source_dir := ''1770978720'', datetime := ''2026-02-15T18:00:00''\<rparr>]"
proof -
  have p: "parsed_recordings example_root =
     [sample_recording\<lparr>source_dir := ''1770978720'', datetime := ''2026-02-15T18:00:00''\<rparr>,
      sample_recording\<lparr>source_dir := ''1770978710'', datetime := ''2026-02-10T08:00:00''\<rparr>,
      sample_recording\<lparr>source_dir := ''1770978730'', modeName := ''Default''\<rparr>,
      sample_recording\<lparr>source_dir := ''1770978750'', duration := 100\<rparr>,
      sample_recording\<lparr>source_dir := ''1770978760'', datetime := ''2026-02-01T10:00:00''\<rparr>]"
    by (simp add: parsed_recordings_def example_root_def load_recordings_def sample_recording_def)
  have r: "example_root \<noteq> Unlistable" by (simp add: example_root_def)
  have f: "[r \<leftarrow> parsed_recordings example_root.
              mode_matches basic_library (Some [''meeting'']) r \<and> duration_ok 1000 r]
      = [sample_recording\<lparr>source_dir := ''1770978720'', datetime := ''2026-02-15T18:00:00''\<rparr>,
         sample_recording\<lparr>source_dir := ''1770978710'', datetime := ''2026-02-10T08:00:00''\<rparr>,
         sample_recording\<lparr>source_dir := ''1770978760'', datetime := ''2026-02-01T10:00:00''\<rparr>]"
    unfolding p
    by (simp add: mode_matches_def duration_ok_def sample_recording_def example_lower)
  have c: "comparable basic_library (Some ''2026-02-10'')
             [r \<leftarrow> parsed_recordings example_root.
                mode_matches basic_library (Some [''meeting'']) r \<and> duration_ok 1000 r]"
    unfolding f by (simp add: comparable_def example_parsed)
  have g: "[r \<leftarrow> parsed_recordings example_root.
              mode_matches basic_library (Some [''meeting'']) r \<and> duration_ok 1000 r
              \<and> since_ok basic_library (Some ''2026-02-10'') r]
      = [sample_recording\<lparr>source_dir := ''1770978720'', datetime := ''2026-02-15T18:00:00''\<rparr>,
         sample_recording\<lparr>source_dir := ''1770978710'', datetime := ''2026-02-10T08:00:00''\<rparr>]"
    unfolding p
    by (simp add: mode_matches_def duration_ok_def since_ok_def sample_recording_def
        example_lower example_parsed datetime_ge_def calendar_fields_def)
  from scan_spec [where root = example_root and lib = basic_library
      and since = "Some ''2026-02-10''" and modes = "Some [''meeting'']" and min_ms = 1000] c r
  show ?thesis
    unfolding g by simp
qed

text \<open>
  Claim C1 as stated fails: with the since bound \<open>2026-02-10\<close> and one recording whose
  timestamp \<open>2026-02-13T10:31:50+00:00\<close> carries a UTC offset, the scan raises instead
  of returning the recording.
\<close>

theorem scan_raises:
  "scan basic_library
        (Directory [(''1770978710'',
                     DirMeta (sample_recording\<lparr>datetime := ''2026-02-13T10:31:50+00:00''\<rparr>))])
        None 0 (Some ''2026-02-10'')
     = Inl TypeError"
  using utc_parsed example_parsed(1)
  by (simp add: scan_def load_recordings_def datetime_ge_def)

subsection \<open>Archiving one recording\<close>

lemma archive_recording_raises:
  assumes "format_error env rec = Some e"
  shows "archive_recording env rec w dry_run = (failure rec e, w\<lparr>ticks := ticks w + 1\<rparr>)"
  using assms by (simp add: archive_recording_def format_recording_raises)

text \<open>The success results of a dry run and of a run that commits.\<close>

lemma archive_recording_formatted:
  assumes "fromisoformat (library env) (datetime rec) = Some dt"
    and "segment_lines (format_timestamp env) (segments rec) = Inr lines"
  shows "archive_recording env rec w dry_run =
     (let w1 = w\<lparr>ticks := ticks w + 2\<rparr>;
          markdown = join nl (frontmatter_parts (clock env (ticks w)) rec) @ nl
                     @ join nl (body_parts (library env) dt rec lines (clock env (ticks w + 1)));
          path = path_text (year_text (library env) dt) dt
      in if dry_run then
           (\<lparr>success = True, res_source_dir = source_dir rec, error = None,
             file_path = Some path, commit_sha = None\<rparr>, w1)
         else
           (let (sha, w2) = write_and_commit env w1 path markdown
                              (commit_message (library env) rec dt)
            in if sha = None \<or> sha = Some [] then (failure rec CommitFailed, w2)
               else
                 (case mark_archived env w2 (source_dir rec) (datetime rec) (modeName rec)
                         (duration rec) path sha of
                    Inl e \<Rightarrow> (failure rec e, w2)
                  | Inr w3 \<Rightarrow>
                      (\<lparr>success = True, res_source_dir = source_dir rec, error = None,
                        file_path = Some path, commit_sha = sha\<rparr>, w3))))"
  unfolding archive_recording_def format_recording_returns [OF assms]
    compute_file_path_valid [OF assms(1)] assms(1)
  by (simp add: Let_def)

lemma format_error_path:
  assumes "format_error env rec = None"
  obtains dt lines where "fromisoformat (library env) (datetime rec) = Some dt"
    "segment_lines (format_timestamp env) (segments rec) = Inr lines"
    "compute_file_path (library env) rec = Inr (path_text (year_text (library env) dt) dt)"
proof (cases rule: format_error_cases [of env rec])
  case (1 e)
  with assms show ?thesis by simp
next
  case (2 dt lines)
  from 2(2) have "compute_file_path (library env) rec
      = Inr (path_text (year_text (library env) dt) dt)"
    by (rule compute_file_path_valid)
  with 2 show ?thesis using that by blast
qed

lemma archive_recording_dry:
  "archive_recording env rec w True
     = (dry_result env rec,
        w\<lparr>ticks := ticks w + (if format_error env rec = None then 2 else 1)\<rparr>)"
proof (cases "format_error env rec")
  case (Some e)
  then show ?thesis by (simp add: archive_recording_raises dry_result_def)
next
  case None
  then obtain dt lines where p: "fromisoformat (library env) (datetime rec) = Some dt"
    "segment_lines (format_timestamp env) (segments rec) = Inr lines"
    "compute_file_path (library env) rec = Inr (path_text (year_text (library env) dt) dt)"
    by (rule format_error_path)
  show ?thesis
    unfolding archive_recording_formatted [OF p(1,2)]
    using None p(3) by (simp add: dry_result_def)
qed

text \<open>The result of one recording is the one told from the recording and the environment.\<close>

lemma archive_recording_outcome:
  "fst (archive_recording env rec w dry_run) = outcome env dry_run (git_calls w) rec"
proof (cases "format_error env rec")
  case (Some e)
  then show ?thesis by (simp add: archive_recording_raises outcome_def)
next
  case None
  then obtain dt lines where p: "fromisoformat (library env) (datetime rec) = Some dt"
    "segment_lines (format_timestamp env) (segments rec) = Inr lines"
    "compute_file_path (library env) rec = Inr (path_text (year_text (library env) dt) dt)"
    by (rule format_error_path)
  show ?thesis
    unfolding archive_recording_formatted [OF p(1,2)] outcome_def None p(3)
    by (auto simp: Let_def write_and_commit_def mark_archived_def
        split: option.splits)
qed

lemma archive_recording_git_calls:
  "git_calls (snd (archive_recording env rec w dry_run))
     = git_calls w + attempts env dry_run rec"
proof (cases "format_error env rec")
  case (Some e)
  then show ?thesis by (simp add: archive_recording_raises attempts_def)
next
  case None
  then obtain dt lines where p: "fromisoformat (library env) (datetime rec) = Some dt"
    "segment_lines (format_timestamp env) (segments rec) = Inr lines"
    by (rule format_error_path)
  show ?thesis
    unfolding archive_recording_formatted [OF p(1,2)] attempts_def None
    by (auto simp: Let_def write_and_commit_def mark_archived_def
        split: option.splits)
qed

lemma archive_recording_archived:
  "archived (snd (archive_recording env rec w dry_run)) sd
     \<longleftrightarrow> archived w sd
          \<or> sd = source_dir rec \<and> success (fst (archive_recording env rec w dry_run)) \<and> \<not> dry_run"
proof (cases "format_error env rec")
  case (Some e)
  then show ?thesis
    by (simp add: archive_recording_raises archived_def tables_def failure_def)
next
  case None
  then obtain dt lines where p: "fromisoformat (library env) (datetime rec) = Some dt"
    "segment_lines (format_timestamp env) (segments rec) = Inr lines"
    by (rule format_error_path)
  show ?thesis
    unfolding archive_recording_formatted [OF p(1,2)]
    by (auto simp: Let_def write_and_commit_def mark_archived_def archived_def tables_def
        failure_def split: option.splits)
qed

subsection \<open>Marks follow commits\<close>

lemma follows_append:
  "follows prev a \<Longrightarrow> self_contained b \<Longrightarrow> follows prev (a @ b)"
  by (induction a arbitrary: prev) (auto simp: self_contained_def)

lemma self_contained_append:
  "self_contained a \<Longrightarrow> self_contained b \<Longrightarrow> self_contained (a @ b)"
  using follows_append unfolding self_contained_def by blast

lemma self_contained_Nil: "self_contained []"
  by (simp add: self_contained_def)

lemma self_contained_single:
  "self_contained [InitDb]" "self_contained [Pull]" "self_contained [Push]"
  "self_contained [RunRecorded a b c]" "self_contained [Commit p x m s]"
  by (simp_all add: self_contained_def)

lemma self_contained_commit_mark:
  assumes "s \<noteq> []" and "sublist (''Source: '' @ sd @ nl) m"
  shows "self_contained [Commit p x m s, MarkArchived sd p (Some s)]"
  using assms by (simp add: self_contained_def)

lemma follows_take: "follows prev evs \<Longrightarrow> follows prev (take n evs)"
proof (induction evs arbitrary: prev n)
  case Nil
  then show ?case by simp
next
  case (Cons e es)
  then show ?case by (cases n) auto
qed

lemma commit_message_source:
  "sublist (''Source: '' @ source_dir rec @ nl) (commit_message lib rec dt)"
proof -
  have "commit_message lib rec dt =
      (''Archive: '' @ modeName rec @ '' recording '' @ strftime lib dt ''%Y-%m-%d %H:%M'' @ nl @ nl)
      @ (''Source: '' @ source_dir rec @ nl)
      @ (''Duration: '' @ str_int (duration rec) @ ''ms'' @ nl)"
    by (simp add: commit_message_def)
  then show ?thesis
    by (simp only: sublist_appendI)
qed

lemma grows_refl: "grows w w"
  by (simp add: grows_def committed_rows_def self_contained_Nil)

lemma grows_trans:
  assumes "grows a b" and "grows b c"
  shows "grows a c"
proof -
  from assms obtain e1 e2 where e: "trace b = trace a @ e1" "self_contained e1"
    "trace c = trace b @ e2" "self_contained e2"
    by (auto simp: grows_def)
  from assms obtain c1 c2 where c: "commits b = commits a @ c1" "commits c = commits b @ c2"
    by (auto simp: grows_def)
  from assms have r: "committed_rows a b" "committed_rows b c"
    by (auto simp: grows_def)
  have "trace c = trace a @ (e1 @ e2)" using e by simp
  moreover have "self_contained (e1 @ e2)" using e by (simp add: self_contained_append)
  moreover have "commits c = commits a @ (c1 @ c2)" using c by simp
  moreover have "committed_rows a c"
    unfolding committed_rows_def
  proof (intro allI impI)
    fix sd row
    assume "archived_recordings (tables c) sd = Some row"
    with r(2) consider "archived_recordings (tables b) sd = Some row"
      | "\<exists>x m s. s \<noteq> [] \<and> row_commit_sha row = Some s
                 \<and> (row_file_path row, x, m, s) \<in> set (commits c)"
      unfolding committed_rows_def by blast
    then show "archived_recordings (tables a) sd = Some row
        \<or> (\<exists>x m s. s \<noteq> [] \<and> row_commit_sha row = Some s
                     \<and> (row_file_path row, x, m, s) \<in> set (commits c))"
    proof cases
      case 1
      with r(1) consider "archived_recordings (tables a) sd = Some row"
        | "\<exists>x m s. s \<noteq> [] \<and> row_commit_sha row = Some s
                 \<and> (row_file_path row, x, m, s) \<in> set (commits b)"
        unfolding committed_rows_def by blast
      then show ?thesis
      proof cases
        case 1
        then show ?thesis by simp
      next
        case 2
        then show ?thesis using c(2) by auto
      qed
    next
      case 2
      then show ?thesis by simp
    qed
  qed
  ultimately show ?thesis unfolding grows_def by blast
qed

lemma grows_ticks: "grows w (w\<lparr>ticks := t\<rparr>)"
  by (simp add: grows_def committed_rows_def self_contained_Nil tables_def)

lemma grows_init_db: "init_db env w = Inr w' \<Longrightarrow> grows w w'"
  using self_contained_single(1)
  by (auto simp: grows_def committed_rows_def init_db_def tables_def
      split: option.splits if_splits)

lemma grows_ensure_up_to_date: "ensure_up_to_date env w = Inr w' \<Longrightarrow> grows w w'"
  using self_contained_single(2)
  by (auto simp: grows_def committed_rows_def ensure_up_to_date_def tables_def
      split: option.splits)

lemma grows_push_to_remote: "push_to_remote env w = Inr w' \<Longrightarrow> grows w w'"
  using self_contained_single(3)
  by (auto simp: grows_def committed_rows_def push_to_remote_def tables_def
      split: option.splits)

lemma grows_update_last_run: "update_last_run env w a b c = Inr w' \<Longrightarrow> grows w w'"
  using self_contained_single(4) [of a b c]
  by (auto simp: grows_def committed_rows_def update_last_run_def tables_def Let_def
      split: option.splits if_splits)

lemma grows_write_and_commit:
  "grows w (snd (write_and_commit env w p x m))"
proof (cases "commit_outcome env (git_calls w)")
  case None
  then show ?thesis
    by (simp add: write_and_commit_def grows_def committed_rows_def self_contained_Nil tables_def)
next
  case (Some s)
  then show ?thesis
    using self_contained_single(5) [of p x m s]
    by (auto simp: write_and_commit_def grows_def committed_rows_def tables_def)
qed

lemma grows_commit_mark:
  assumes "write_and_commit env w p x (commit_message lib rec dt) = (Some s, w2)" and "s \<noteq> []"
    and "mark_archived env w2 (source_dir rec) d mo du p (Some s) = Inr w3"
  shows "grows w w3"
proof -
  from assms(1) have w2: "w2 = w\<lparr>git_calls := git_calls w + 1,
      commits := commits w @ [(p, x, commit_message lib rec dt, s)],
      trace := trace w @ [Commit p x (commit_message lib rec dt) s]\<rparr>"
    by (auto simp: write_and_commit_def Let_def split: option.splits)
  from assms(3) have w3: "w3 = w2\<lparr>state_db := Some ((tables w2)\<lparr>archived_recordings :=
        (archived_recordings (tables w2))(source_dir rec \<mapsto>
           \<lparr>row_datetime = d, row_mode = mo, row_duration_ms = du, row_file_path = p,
            row_commit_sha = Some s, row_archived_at = isoformat (clock env (ticks w2))\<rparr>)\<rparr>),
      ticks := ticks w2 + 1,
      trace := trace w2 @ [MarkArchived (source_dir rec) p (Some s)]\<rparr>"
    by (auto simp: mark_archived_def Let_def split: if_splits)
  have t: "trace w3 = trace w @ [Commit p x (commit_message lib rec dt) s,
                                  MarkArchived (source_dir rec) p (Some s)]"
    by (simp add: w3 w2)
  have c: "commits w3 = commits w @ [(p, x, commit_message lib rec dt, s)]"
    by (simp add: w3 w2)
  have r: "committed_rows w w3"
    unfolding committed_rows_def using assms(2)
    by (auto simp: w3 w2 tables_def split: if_splits)
  have "self_contained [Commit p x (commit_message lib rec dt) s,
                        MarkArchived (source_dir rec) p (Some s)]"
    using assms(2) commit_message_source by (rule self_contained_commit_mark)
  with t c r show ?thesis unfolding grows_def by blast
qed

lemma grows_archive_recording:
  "grows w (snd (archive_recording env rec w dry_run))"
proof (cases "format_error env rec")
  case (Some e)
  then show ?thesis by (simp add: archive_recording_raises grows_ticks)
next
  case None
  then obtain dt lines where p: "fromisoformat (library env) (datetime rec) = Some dt"
    "segment_lines (format_timestamp env) (segments rec) = Inr lines"
    by (rule format_error_path)
  show ?thesis
  proof (cases dry_run)
    case True
    then show ?thesis by (simp add: archive_recording_dry grows_ticks)
  next
    case False
    define w1 where "w1 = w\<lparr>ticks := ticks w + 2\<rparr>"
    define md where "md = join nl (frontmatter_parts (clock env (ticks w)) rec) @ nl
       @ join nl (body_parts (library env) dt rec lines (clock env (ticks w + 1)))"
    define path where "path = path_text (year_text (library env) dt) dt"
    obtain sha w2 where
      wc: "write_and_commit env w1 path md (commit_message (library env) rec dt) = (sha, w2)"
      by (cases "write_and_commit env w1 path md (commit_message (library env) rec dt)")
    have a: "archive_recording env rec w dry_run =
       (if sha = None \<or> sha = Some [] then (failure rec CommitFailed, w2)
        else
          (case mark_archived env w2 (source_dir rec) (datetime rec) (modeName rec)
                  (duration rec) path sha of
             Inl e \<Rightarrow> (failure rec e, w2)
           | Inr w3 \<Rightarrow>
               (\<lparr>success = True, res_source_dir = source_dir rec, error = None,
                 file_path = Some path, commit_sha = sha\<rparr>, w3)))"
      unfolding archive_recording_formatted [OF p] Let_def
        w1_def [symmetric] md_def [symmetric] path_def [symmetric] wc
      using False by simp
    have g1: "grows w w1" unfolding w1_def by (rule grows_ticks)
    have g2: "grows w1 w2"
      using grows_write_and_commit [of w1 env path md "commit_message (library env) rec dt"] wc
      by simp
    show ?thesis
    proof (cases "sha = None \<or> sha = Some []")
      case True
      then have "snd (archive_recording env rec w dry_run) = w2" unfolding a by simp
      then show ?thesis using g1 g2 grows_trans by simp
    next
      case f: False
      then obtain s where s: "sha = Some s" "s \<noteq> []" by auto
      show ?thesis
      proof (cases "mark_archived env w2 (source_dir rec) (datetime rec) (modeName rec)
                  (duration rec) path sha")
        case (Inl e)
        with s have "snd (archive_recording env rec w dry_run) = w2" unfolding a by simp
        then show ?thesis using g1 g2 grows_trans by simp
      next
        case (Inr w3)
        with s have "snd (archive_recording env rec w dry_run) = w3" unfolding a by simp
        moreover have "grows w1 w3"
          using wc s Inr by (auto intro: grows_commit_mark)
        ultimately show ?thesis using g1 grows_trans by simp
      qed
    qed
  qed
qed

subsection \<open>The loop over the recordings\<close>

lemma is_archived_cases:
  obtains "store_fails env (OpIsArchived sd)" "is_archived env w sd = Inl StoreError"
  | "\<not> store_fails env (OpIsArchived sd)" "is_archived env w sd = Inr (archived w sd)"
  by (cases "store_fails env (OpIsArchived sd)") (simp_all add: is_archived_def archived_def)

lemma archive_loop_grows:
  "archive_loop env dry_run recs res k w = (out, w') \<Longrightarrow> grows w w'"
proof (induction recs arbitrary: res k w)
  case Nil
  then show ?case by (simp add: grows_refl)
next
  case (Cons rec recs)
  show ?case
  proof (cases rule: is_archived_cases [of env "source_dir rec" w])
    case 1
    with Cons.prems show ?thesis by (simp add: grows_refl)
  next
    case 2
    show ?thesis
    proof (cases "archived w (source_dir rec)")
      case True
      with 2 Cons show ?thesis by simp
    next
      case False
      obtain x w1 where a: "archive_recording env rec w dry_run = (x, w1)"
        by (cases "archive_recording env rec w dry_run")
      with False 2 Cons.prems
      have "archive_loop env dry_run recs (res @ [x]) k w1 = (out, w')"
        by simp
      then have "grows w1 w'" by (rule Cons.IH)
      moreover have "grows w w1" using grows_archive_recording [of w env rec dry_run] a by simp
      ultimately show ?thesis using grows_trans by blast
    qed
  qed
qed

lemma archive_loop_counts:
  "archive_loop env dry_run recs res k w = (Inr (res', k'), w') \<Longrightarrow>
     (\<exists>new. res' = res @ new \<and> length new + k' = k + length recs)"
proof (induction recs arbitrary: res k w)
  case Nil
  then show ?case by simp
next
  case (Cons rec recs)
  show ?case
  proof (cases rule: is_archived_cases [of env "source_dir rec" w])
    case 1
    with Cons.prems show ?thesis by simp
  next
    case 2
    show ?thesis
    proof (cases "archived w (source_dir rec)")
      case True
      with 2 Cons.prems
      have "archive_loop env dry_run recs res (k + 1) w = (Inr (res', k'), w')" by simp
      from Cons.IH [OF this] show ?thesis by auto
    next
      case False
      obtain x w1 where a: "archive_recording env rec w dry_run = (x, w1)"
        by (cases "archive_recording env rec w dry_run")
      with False 2 Cons.prems
      have "archive_loop env dry_run recs (res @ [x]) k w1 = (Inr (res', k'), w')"
        by simp
      from Cons.IH [OF this] show ?thesis by auto
    qed
  qed
qed


text \<open>
  When the source directories are distinct and every test \<open>is_archived\<close> answers, the
  loop returns, and its results are the expected ones for the recordings that were not
  archived before.
\<close>

lemma archive_loop_expected:
  assumes "distinct (map source_dir recs)"
    and "\<forall>r \<in> set recs. \<not> store_fails env (OpIsArchived (source_dir r))"
  shows "\<exists>w'. archive_loop env dry_run recs res k w
           = (Inr (res @ expected env dry_run (git_calls w)
                            [r \<leftarrow> recs. \<not> archived w (source_dir r)],
                   k + length [r \<leftarrow> recs. archived w (source_dir r)]), w')"
  using assms
proof (induction recs arbitrary: res k w)
  case Nil
  then show ?case by simp
next
  case (Cons rec recs)
  from Cons.prems have d: "distinct (map source_dir recs)"
    and m: "source_dir rec \<notin> source_dir ` set recs"
    and s: "\<forall>r \<in> set recs. \<not> store_fails env (OpIsArchived (source_dir r))"
    and i: "is_archived env w (source_dir rec) = Inr (archived w (source_dir rec))"
    by (simp_all add: is_archived_def archived_def)
  from m have n: "\<forall>r \<in> set recs. source_dir r \<noteq> source_dir rec"
    by (metis imageI)
  show ?case
  proof (cases "archived w (source_dir rec)")
    case True
    from Cons.IH [OF d s, of res "k + 1" w] True i show ?thesis by simp
  next
    case False
    obtain x w1 where a: "archive_recording env rec w dry_run = (x, w1)"
      by (cases "archive_recording env rec w dry_run")
    have x: "x = outcome env dry_run (git_calls w) rec"
      using archive_recording_outcome [of env rec w dry_run] a by simp
    have g: "git_calls w1 = git_calls w + attempts env dry_run rec"
      using archive_recording_git_calls [of env rec w dry_run] a by simp
    have same: "\<forall>r \<in> set recs. archived w1 (source_dir r) = archived w (source_dir r)"
      using archive_recording_archived [of env rec w dry_run] a n by auto
    then have f: "[r \<leftarrow> recs. \<not> archived w1 (source_dir r)] = [r \<leftarrow> recs. \<not> archived w (source_dir r)]"
      "[r \<leftarrow> recs. archived w1 (source_dir r)] = [r \<leftarrow> recs. archived w (source_dir r)]"
      by (auto intro: filter_cong)
    from Cons.IH [OF d s, of "res @ [x]" k w1] obtain w' where
      "archive_loop env dry_run recs (res @ [x]) k w1
         = (Inr ((res @ [x]) @ expected env dry_run (git_calls w1)
                            [r \<leftarrow> recs. \<not> archived w1 (source_dir r)],
                   k + length [r \<leftarrow> recs. archived w1 (source_dir r)]), w')"
      by blast
    then show ?thesis
      using False i a by (simp add: f g x)
  qed
qed

lemma archive_loop_dry:
  "archive_loop env True recs res k w = (out, w') \<Longrightarrow>
     state_db w' = state_db w \<and> commits w' = commits w \<and> git_calls w' = git_calls w
     \<and> trace w' = trace w
     \<and> (\<forall>res' k'. out = Inr (res', k') \<longrightarrow>
          res' = res @ map (dry_result env) [r \<leftarrow> recs. \<not> archived w (source_dir r)]
          \<and> k' = k + length [r \<leftarrow> recs. archived w (source_dir r)])"
proof (induction recs arbitrary: res k w)
  case Nil
  then show ?case by auto
next
  case (Cons rec recs)
  show ?case
  proof (cases rule: is_archived_cases [of env "source_dir rec" w])
    case 1
    with Cons.prems show ?thesis by auto
  next
    case 2
    show ?thesis
    proof (cases "archived w (source_dir rec)")
      case True
      with 2 Cons.prems have "archive_loop env True recs res (k + 1) w = (out, w')" by simp
      from Cons.IH [OF this] True show ?thesis by simp
    next
      case False
      define w1 where
        "w1 = w\<lparr>ticks := ticks w + (if format_error env rec = None then 2 else 1)\<rparr>"
      have same: "\<And>sd. archived w1 sd = archived w sd"
        by (simp add: w1_def archived_def tables_def)
      from False 2 Cons.prems
      have "archive_loop env True recs (res @ [dry_result env rec]) k w1 = (out, w')"
        by (simp add: archive_recording_dry w1_def)
      from Cons.IH [OF this] False show ?thesis
        by (simp add: same) (simp add: w1_def)
    qed
  qed
qed

subsection \<open>A whole run\<close>

lemma run_archiver_unfold:
  "run_archiver env cfg w0 dry_run backfill since_date modes_override =
     (case start_run env dry_run w0 of
        (Some e, w) \<Rightarrow> (Inl e, w)
      | (None, w2) \<Rightarrow>
          (case resolve_since env w2 backfill since_date of
             Inl e \<Rightarrow> (Inl e, w2)
           | Inr since \<Rightarrow>
               (case scan (library env) (recordings_root env) (resolve_modes cfg modes_override)
                       (filters_min_duration_ms cfg) since of
                  Inl e \<Rightarrow> (Inl e, w2)
                | Inr recordings \<Rightarrow>
                    (case archive_loop env dry_run recordings [] 0 w2 of
                       (Inl e, w3) \<Rightarrow> (Inl e, w3)
                     | (Inr (res, skipped), w3) \<Rightarrow>
                         (case end_run env dry_run (length recordings) res w3 of
                            (Some e, w) \<Rightarrow> (Inl e, w)
                          | (None, w5) \<Rightarrow>
                              (Inr (summary_of (length recordings) res skipped), w5))))))"
  unfolding run_archiver_def start_run_def end_run_def summary_of_def
  by (simp split: sum.splits prod.splits)

lemma run_archiver_summary:
  assumes "run_archiver env cfg w0 dry_run backfill since_date modes_override = (Inr s, w')"
  obtains w2 since recordings res skipped w3 where
    "start_run env dry_run w0 = (None, w2)"
    "resolve_since env w2 backfill since_date = Inr since"
    "scan (library env) (recordings_root env) (resolve_modes cfg modes_override)
       (filters_min_duration_ms cfg) since = Inr recordings"
    "archive_loop env dry_run recordings [] 0 w2 = (Inr (res, skipped), w3)"
    "end_run env dry_run (length recordings) res w3 = (None, w')"
    "s = summary_of (length recordings) res skipped"
  using assms unfolding run_archiver_unfold
  by (auto split: sum.splits prod.splits option.splits)

lemma grows_start_run:
  assumes "start_run env dry_run w0 = (x, w)"
  shows "grows w0 w"
proof (cases "init_db env w0")
  case (Inl e)
  with assms show ?thesis by (simp add: start_run_def grows_refl)
next
  case (Inr w1)
  then have g: "grows w0 w1" by (rule grows_init_db)
  show ?thesis
  proof (cases "\<not> dry_run \<and> repo_valid env")
    case False
    with assms Inr have "w = w1" by (auto simp: start_run_def split: if_splits)
    with g show ?thesis by simp
  next
    case True
    show ?thesis
    proof (cases "ensure_up_to_date env w1")
      case e: (Inl e)
      with assms Inr True have "w = w1" by (simp add: start_run_def)
      with g show ?thesis by simp
    next
      case w2: (Inr w2)
      with assms Inr True have "w = w2" by (simp add: start_run_def)
      with g grows_ensure_up_to_date [OF w2] show ?thesis using grows_trans by blast
    qed
  qed
qed

lemma start_run_same:
  assumes "start_run env dry_run w0 = (x, w)"
  shows "tables w = tables w0 \<and> commits w = commits w0 \<and> git_calls w = git_calls w0"
  using assms
  by (auto simp: start_run_def init_db_def ensure_up_to_date_def tables_def
      split: if_splits option.splits)

lemma grows_end_run:
  assumes "end_run env dry_run n res w3 = (x, w)"
  shows "grows w3 w"
proof -
  define p where
    "p = (if \<not> dry_run \<and> list_ex success res then push_to_remote env w3 else Inr w3)"
  show ?thesis
  proof (cases p)
    case (Inl e)
    with assms have "w = w3" by (simp add: end_run_def p_def [symmetric])
    then show ?thesis by (simp add: grows_refl)
  next
    case (Inr w4)
    then have 1: "grows w3 w4"
      by (auto simp: p_def grows_refl split: if_splits intro: grows_push_to_remote)
    define u where
      "u = (if \<not> dry_run
            then update_last_run env w4 n (count_where success res)
                   (count_where (\<lambda>r. \<not> success r) res)
            else Inr w4)"
    show ?thesis
    proof (cases u)
      case e: (Inl e)
      with assms Inr have "w = w4" by (simp add: end_run_def p_def [symmetric] u_def [symmetric])
      with 1 show ?thesis by simp
    next
      case w5: (Inr w5)
      with assms Inr have "w = w5" by (simp add: end_run_def p_def [symmetric] u_def [symmetric])
      moreover from w5 have "grows w4 w5"
        by (auto simp: u_def grows_refl split: if_splits intro: grows_update_last_run)
      ultimately show ?thesis using 1 grows_trans by blast
    qed
  qed
qed

lemma run_archiver_grows:
  assumes "run_archiver env cfg w0 dry_run backfill since_date modes_override = (out, w')"
  shows "grows w0 w'"
proof -
  obtain x w2 where st: "start_run env dry_run w0 = (x, w2)"
    by (cases "start_run env dry_run w0")
  then have g0: "grows w0 w2" by (rule grows_start_run)
  show ?thesis
  proof (cases "\<exists>since recordings. x = None
      \<and> resolve_since env w2 backfill since_date = Inr since
      \<and> scan (library env) (recordings_root env) (resolve_modes cfg modes_override)
           (filters_min_duration_ms cfg) since = Inr recordings")
    case False
    with assms st have "w' = w2"
      unfolding run_archiver_unfold by (auto split: option.splits sum.splits)
    with g0 show ?thesis by simp
  next
    case True
    then obtain since recordings where x: "x = None"
      and rs: "resolve_since env w2 backfill since_date = Inr since"
      and sc: "scan (library env) (recordings_root env) (resolve_modes cfg modes_override)
           (filters_min_duration_ms cfg) since = Inr recordings"
      by blast
    obtain o3 w3 where l: "archive_loop env dry_run recordings [] 0 w2 = (o3, w3)"
      by (cases "archive_loop env dry_run recordings [] 0 w2")
    then have g1: "grows w2 w3" by (rule archive_loop_grows)
    show ?thesis
    proof (cases o3)
      case (Inl e)
      with assms st x rs sc l have "w' = w3" unfolding run_archiver_unfold by simp
      with g0 g1 show ?thesis using grows_trans by blast
    next
      case (Inr rk)
      obtain res skipped where rk: "rk = (res, skipped)" by (cases rk)
      obtain y w5 where e: "end_run env dry_run (length recordings) res w3 = (y, w5)"
        by (cases "end_run env dry_run (length recordings) res w3")
      then have g2: "grows w3 w5" by (rule grows_end_run)
      from assms st x rs sc l Inr rk e have "w' = w5"
        unfolding run_archiver_unfold by (auto split: option.splits)
      with g0 g1 g2 show ?thesis using grows_trans by blast
    qed
  qed
qed

text \<open>
  Claim C7. In every run, dry or not, the events that the run adds to the trace are such
  that, wherever the run is cut off, every mark-as-archived written so far comes directly
  after the successful commit of the same recording: the commit of the same path, whose
  returned identifier the mark stores, with the recording's source directory in its
  message. At the end of the run every row of the archive table that the run wrote names
  a commit that the repository holds.
\<close>

theorem mark_after_commit:
  assumes "run_archiver env cfg w0 dry_run backfill since_date modes_override = (out, w')"
  shows "\<exists>evs. trace w' = trace w0 @ evs
               \<and> (\<forall>n. marks_follow_commits (take n evs))
               \<and> committed_rows w0 w'"
proof -
  from assms have "grows w0 w'" by (rule run_archiver_grows)
  then obtain evs where e: "trace w' = trace w0 @ evs" "self_contained evs"
    and r: "committed_rows w0 w'"
    by (auto simp: grows_def)
  from e(2) have "\<forall>n. marks_follow_commits (take n evs)"
    by (simp add: marks_follow_commits_def self_contained_def follows_take)
  with e(1) r show ?thesis by blast
qed

text \<open>
  Claim C10. The summary of a run counts every result as archived or failed, and every
  scanned recording as archived, failed or skipped.
\<close>

theorem summary_counts:
  assumes "run_archiver env cfg w0 dry_run backfill since_date modes_override = (Inr s, w')"
  shows "archived_count s + failed_count s = length (results s)
         \<and> total_recordings s = archived_count s + failed_count s + skipped_count s"
proof -
  from assms obtain w2 recordings res skipped w3 where
    l: "archive_loop env dry_run recordings [] 0 w2 = (Inr (res, skipped), w3)"
    and s: "s = summary_of (length recordings) res skipped"
    by (rule run_archiver_summary)
  from archive_loop_counts [OF l] have n: "length res + skipped = length recordings" by simp
  have c: "count_where success res + count_where (\<lambda>r. \<not> success r) res = length res"
    unfolding count_where_def by (rule sum_length_filter_compl)
  from n c show ?thesis by (simp add: s summary_of_def)
qed

lemma resolve_since_tables:
  "tables w = tables w0 \<Longrightarrow>
     resolve_since env w backfill since_date = resolve_since env w0 backfill since_date"
  by (simp add: resolve_since_def get_last_run_timestamp_def)

lemma archived_tables: "tables w = tables w0 \<Longrightarrow> archived w sd = archived w0 sd"
  by (simp add: archived_def)

lemma start_run_smooth:
  assumes "\<not> store_fails env OpInit" and "repo_valid env" and "dry_run \<or> sync_raises env = None"
  shows "\<exists>w2. start_run env dry_run w0 = (None, w2)"
  using assms by (auto simp: start_run_def init_db_def ensure_up_to_date_def)

lemma end_run_smooth:
  assumes "dry_run \<or> push_raises env = None \<and> \<not> store_fails env OpUpdateLastRun"
  shows "\<exists>w5. end_run env dry_run n res w3 = (None, w5)"
  using assms by (auto simp: end_run_def push_to_remote_def update_last_run_def Let_def)

text \<open>
  A run in which the set-up, the sync, the scan, the tests \<open>is_archived\<close>, the push and
  the run record work returns its summary, with the expected results.
\<close>

lemma run_archiver_smooth:
  assumes "\<not> store_fails env OpInit" and "repo_valid env"
    and "dry_run \<or> sync_raises env = None \<and> push_raises env = None
                    \<and> \<not> store_fails env OpUpdateLastRun"
    and "resolve_since env w0 backfill since_date = Inr since"
    and "scan (library env) (recordings_root env) (resolve_modes cfg modes_override)
           (filters_min_duration_ms cfg) since = Inr recs"
    and "distinct (map source_dir recs)"
    and "\<forall>r \<in> set recs. \<not> store_fails env (OpIsArchived (source_dir r))"
  shows "fst (run_archiver env cfg w0 dry_run backfill since_date modes_override)
           = Inr (summary_of (length recs)
                    (expected env dry_run (git_calls w0)
                       [r \<leftarrow> recs. \<not> archived w0 (source_dir r)])
                    (length [r \<leftarrow> recs. archived w0 (source_dir r)]))"
proof -
  from assms(1-3) obtain w2 where st: "start_run env dry_run w0 = (None, w2)"
    using start_run_smooth [of env dry_run w0] by blast
  from start_run_same [OF st] have same: "tables w2 = tables w0" "git_calls w2 = git_calls w0"
    by simp_all
  have rs: "resolve_since env w2 backfill since_date = Inr since"
    using resolve_since_tables [OF same(1), of env backfill since_date] assms(4) by simp
  have a: "\<And>sd. archived w2 sd = archived w0 sd" using same(1) by (rule archived_tables)
  from archive_loop_expected [OF assms(6,7), of dry_run "[]" 0 w2] obtain w3 where
    l: "archive_loop env dry_run recs [] 0 w2
          = (Inr (expected env dry_run (git_calls w0) [r \<leftarrow> recs. \<not> archived w0 (source_dir r)],
                  length [r \<leftarrow> recs. archived w0 (source_dir r)]), w3)"
    by (auto simp: a same(2))
  from assms(3) obtain w5 where
    e: "end_run env dry_run (length recs)
          (expected env dry_run (git_calls w0) [r \<leftarrow> recs. \<not> archived w0 (source_dir r)]) w3
        = (None, w5)"
    using end_run_smooth [of dry_run env] by blast
  show ?thesis
    unfolding run_archiver_unfold st by (simp add: rs assms(5) l e)
qed


subsection \<open>Dry runs\<close>

text \<open>
  Claim C6, as the code has it. A dry run makes no commit and no push, asks nothing of
  git, and writes no row to the archive table or the runs table. Its one effect on the
  state store is that of opening it: unless that fails, which ends the run, the database
  file and its two tables exist afterwards, with the rows they had before (none when the
  file did not exist). When the run returns a summary, the results are, in scan order, one
  for each scanned recording that was not archived before: a success record with the
  computed path and no commit identifier when the document can be built, and otherwise the
  failure record of the exception that building it raises.
\<close>

theorem dry_run_effects:
  assumes "run_archiver env cfg w0 True backfill since_date modes_override = (out, w')"
  shows "commits w' = commits w0
         \<and> git_calls w' = git_calls w0
         \<and> (if store_fails env OpInit then out = Inl StoreError \<and> w' = w0
             else trace w' = trace w0 @ [InitDb] \<and> state_db w' = Some (tables w0))
         \<and> (\<forall>s. out = Inr s \<longrightarrow>
               (\<exists>since recordings.
                  resolve_since env w0 backfill since_date = Inr since
                  \<and> scan (library env) (recordings_root env) (resolve_modes cfg modes_override)
                       (filters_min_duration_ms cfg) since = Inr recordings
                  \<and> results s = map (dry_result env)
                                   [r \<leftarrow> recordings. \<not> archived w0 (source_dir r)]
                  \<and> skipped_count s = length [r \<leftarrow> recordings. archived w0 (source_dir r)]))"
proof (cases "store_fails env OpInit")
  case True
  then have "start_run env True w0 = (Some StoreError, w0)"
    by (simp add: start_run_def init_db_def)
  with assms have "out = Inl StoreError" "w' = w0"
    unfolding run_archiver_unfold by simp_all
  with True show ?thesis by simp
next
  case False
  define w1 where "w1 = w0\<lparr>state_db := Some (tables w0), trace := trace w0 @ [InitDb]\<rparr>"
  have st: "start_run env True w0 = (if repo_valid env then None else Some ValueError, w1)"
    using False by (simp add: start_run_def init_db_def w1_def)
  have i: "trace w1 = trace w0 @ [InitDb]" "state_db w1 = Some (tables w0)"
    "commits w1 = commits w0" "git_calls w1 = git_calls w0" "tables w1 = tables w0"
    by (simp_all add: w1_def tables_def)
  have e: "\<And>n res w3. end_run env True n res w3 = (None, w3)" by (simp add: end_run_def)
  have frame: "trace w' = trace w1 \<and> state_db w' = state_db w1 \<and> commits w' = commits w1
      \<and> git_calls w' = git_calls w1"
  proof (cases "\<exists>since recordings. repo_valid env
      \<and> resolve_since env w1 backfill since_date = Inr since
      \<and> scan (library env) (recordings_root env) (resolve_modes cfg modes_override)
           (filters_min_duration_ms cfg) since = Inr recordings")
    case f: False
    with assms st have "w' = w1"
      unfolding run_archiver_unfold by (auto split: sum.splits if_splits)
    then show ?thesis by simp
  next
    case True
    then obtain since recordings where v: "repo_valid env"
      and rs: "resolve_since env w1 backfill since_date = Inr since"
      and sc: "scan (library env) (recordings_root env) (resolve_modes cfg modes_override)
           (filters_min_duration_ms cfg) since = Inr recordings"
      by blast
    obtain o3 w3 where l: "archive_loop env True recordings [] 0 w1 = (o3, w3)"
      by (cases "archive_loop env True recordings [] 0 w1")
    from assms st v rs sc l have "w' = w3"
      unfolding run_archiver_unfold by (auto simp: e split: sum.splits)
    with archive_loop_dry [OF l] show ?thesis by simp
  qed
  have res: "\<exists>since recordings.
            resolve_since env w0 backfill since_date = Inr since
            \<and> scan (library env) (recordings_root env) (resolve_modes cfg modes_override)
                 (filters_min_duration_ms cfg) since = Inr recordings
            \<and> results s = map (dry_result env)
                             [r \<leftarrow> recordings. \<not> archived w0 (source_dir r)]
            \<and> skipped_count s = length [r \<leftarrow> recordings. archived w0 (source_dir r)]"
    if "out = Inr s" for s
  proof -
    from assms that
    have "run_archiver env cfg w0 True backfill since_date modes_override = (Inr s, w')"
      by simp
    then obtain w2 since recordings res skipped w3 where
      s2: "start_run env True w0 = (None, w2)"
      and rs: "resolve_since env w2 backfill since_date = Inr since"
      and sc: "scan (library env) (recordings_root env) (resolve_modes cfg modes_override)
                 (filters_min_duration_ms cfg) since = Inr recordings"
      and l: "archive_loop env True recordings [] 0 w2 = (Inr (res, skipped), w3)"
      and s: "s = summary_of (length recordings) res skipped"
      by (rule run_archiver_summary)
    from s2 st have w2: "w2 = w1" by simp
    from archive_loop_dry [OF l]
    have d: "res = map (dry_result env) [r \<leftarrow> recordings. \<not> archived w1 (source_dir r)]"
      "skipped = length [r \<leftarrow> recordings. archived w1 (source_dir r)]"
      by (simp_all add: w2)
    have a: "\<And>sd. archived w1 sd = archived w0 sd" using i(5) by (rule archived_tables)
    from rs have rs': "resolve_since env w0 backfill since_date = Inr since"
      using resolve_since_tables [OF i(5), of env backfill since_date] by (simp add: w2)
    show ?thesis
      using rs' sc d by (auto simp: s summary_of_def a)
  qed
  from frame i res False show ?thesis by simp
qed

subsection \<open>The example run\<close>

lemma example_scan:
  "scan (library example_env) (recordings_root example_env) (resolve_modes example_cfg None)
     (filters_min_duration_ms example_cfg) None
   = Inr example_recordings"
  by (simp add: scan_def example_env_def example_cfg_def resolve_modes_def load_recordings_def
      sample_recording_def endless_recording_def example_lower example_recordings_def)

lemma example_timestamps:
  "fromisoformat basic_library ''yesterday'' = None"
  "fromisoformat basic_library ''2026-02-14T09:00:00'' =
     Some \<lparr>year = 2026, month = 2, day = 14, hour = 9, minute = 0, second = 0,
           microsecond = 0, tzoffset = None\<rparr>"
  "fromisoformat basic_library ''2026-02-16T08:00:00'' =
     Some \<lparr>year = 2026, month = 2, day = 16, hour = 8, minute = 0, second = 0,
           microsecond = 0, tzoffset = None\<rparr>"
  by (simp_all add: parse_defs)

lemma example_distinct:
  "distinct (map source_dir example_recordings)"
  "\<forall>r \<in> set example_recordings. \<not> store_fails example_env (OpIsArchived (source_dir r))"
  by (simp_all add: example_recordings_def example_env_fields)

lemma example_pending:
  "[r \<leftarrow> example_recordings. \<not> archived example_world (source_dir r)]
     = [sample_recording\<lparr>source_dir := ''1770978730'', datetime := ''2026-02-14T09:00:00''\<rparr>,
        sample_recording\<lparr>source_dir := ''1770978740'', datetime := ''2026-02-15T18:00:00''\<rparr>,
        endless_recording\<lparr>source_dir := ''1770978750''\<rparr>,
        sample_recording\<lparr>source_dir := ''1770978720'', datetime := ''yesterday''\<rparr>]"
  "length [r \<leftarrow> example_recordings. archived example_world (source_dir r)] = 1"
  by (simp_all add: example_recordings_def archived_def tables_def example_world_def)

lemma endless_lines:
  "segment_lines print_offset (segments endless_recording) = Inl OverflowError"
  by (simp add: endless_recording_def print_defs)

lemma example_format_errors:
  "format_error example_env
     (sample_recording\<lparr>source_dir := ''1770978730'', datetime := ''2026-02-14T09:00:00''\<rparr>) = None"
  "format_error example_env
     (sample_recording\<lparr>source_dir := ''1770978740'', datetime := ''2026-02-15T18:00:00''\<rparr>) = None"
  "format_error example_env (endless_recording\<lparr>source_dir := ''1770978750''\<rparr>)
     = Some OverflowError"
  "format_error example_env
     (sample_recording\<lparr>source_dir := ''1770978720'', datetime := ''yesterday''\<rparr>)
     = Some ValueError"
  using endless_lines
  by (simp_all add: format_error_def example_env_fields example_timestamps example_parsed
      sample_lines endless_recording_def)

lemma example_paths:
  "compute_file_path basic_library
     (sample_recording\<lparr>source_dir := ''1770978730'', datetime := ''2026-02-14T09:00:00''\<rparr>)
     = Inr ''2026/02/2026-02-14-09-00-00.md''"
  "compute_file_path basic_library
     (sample_recording\<lparr>source_dir := ''1770978740'', datetime := ''2026-02-15T18:00:00''\<rparr>)
     = Inr ''2026/02/2026-02-15-18-00-00.md''"
proof -
  have y: "pad_year basic_library" by (simp add: basic_library_def)
  show "compute_file_path basic_library
     (sample_recording\<lparr>source_dir := ''1770978730'', datetime := ''2026-02-14T09:00:00''\<rparr>)
     = Inr ''2026/02/2026-02-14-09-00-00.md''"
    using y by (simp add: compute_file_path_def example_timestamps print_defs)
  show "compute_file_path basic_library
     (sample_recording\<lparr>source_dir := ''1770978740'', datetime := ''2026-02-15T18:00:00''\<rparr>)
     = Inr ''2026/02/2026-02-15-18-00-00.md''"
    using y by (simp add: compute_file_path_def example_parsed print_defs)
qed

lemma example_expected:
  "expected example_env False 0
     [r \<leftarrow> example_recordings. \<not> archived example_world (source_dir r)] = example_results"
  unfolding example_pending
  by (simp add: outcome_def attempts_def example_format_errors example_paths
      example_env_fields failure_def example_results_def)

lemma example_dry_expected:
  "expected example_env True 0
     [r \<leftarrow> example_recordings. \<not> archived example_world (source_dir r)] = example_dry_results"
  unfolding example_pending
  by (simp add: outcome_def attempts_def example_format_errors example_paths
      example_env_fields failure_def example_dry_results_def)

lemma example_summary:
  "fst (run_archiver example_env example_cfg example_world False True None None)
     = Inr \<lparr>total_recordings = 5, archived_count = 1, failed_count = 3, skipped_count = 1,
            results = example_results\<rparr>"
proof -
  have c: "count_where success example_results = 1"
    "count_where (\<lambda>r. \<not> success r) example_results = 3"
    by (simp_all add: count_where_def example_results_def)
  have g: "git_calls example_world = 0" by (simp add: example_world_def)
  have n: "length example_recordings = 5" by (simp add: example_recordings_def)
  have "fst (run_archiver example_env example_cfg example_world False True None None)
      = Inr (summary_of (length example_recordings)
               (expected example_env False (git_calls example_world)
                  [r \<leftarrow> example_recordings. \<not> archived example_world (source_dir r)])
               (length [r \<leftarrow> example_recordings. archived example_world (source_dir r)]))"
  proof (rule run_archiver_smooth [where since = None])
    show "\<not> store_fails example_env OpInit" "repo_valid example_env"
      "False \<or> sync_raises example_env = None \<and> push_raises example_env = None
                    \<and> \<not> store_fails example_env OpUpdateLastRun"
      "resolve_since example_env example_world True None = Inr None"
      by (simp_all add: example_env_fields resolve_since_def)
  qed (rule example_scan example_distinct)+
  then show ?thesis
    by (simp add: g n example_expected example_pending(2) summary_of_def c)
qed


text \<open>The counts of the example run: five scanned, one archived, three failed, one skipped.\<close>

theorem summary_counts_witness:
  "fst (run_archiver example_env example_cfg example_world False True None None)
     = Inr \<lparr>total_recordings = 5, archived_count = 1, failed_count = 3, skipped_count = 1,
            results = example_results\<rparr>
   \<and> (1::nat) + 3 = length example_results \<and> (5::nat) = 1 + 3 + 1"
proof -
  let ?s = "\<lparr>total_recordings = 5, archived_count = 1, failed_count = 3, skipped_count = 1,
            results = example_results\<rparr>"
  let ?r = "run_archiver example_env example_cfg example_world False True None None"
  have "?r = (Inr ?s, snd ?r)"
    using example_summary by (simp add: prod_eq_iff)
  from summary_counts [OF this] example_summary show ?thesis by simp
qed

lemma example_start:
  "start_run example_env False example_world
     = (None, example_world\<lparr>state_db := Some (tables example_world), trace := [InitDb, Pull]\<rparr>)"
  by (simp add: start_run_def init_db_def ensure_up_to_date_def example_env_fields
      example_world_def)

lemma example_trace:
  "trace (snd (run_archiver example_env example_cfg example_world False True None None))
     = [InitDb, Pull,
        Commit ''2026/02/2026-02-15-18-00-00.md''
          (join nl (frontmatter_parts clock_a
             (sample_recording\<lparr>source_dir := ''1770978740'', datetime := ''2026-02-15T18:00:00''\<rparr>))
           @ nl
           @ join nl
               (body_parts basic_library
                  \<lparr>year = 2026, month = 2, day = 15, hour = 18, minute = 0, second = 0,
                    microsecond = 0, tzoffset = None\<rparr>
                  (sample_recording\<lparr>source_dir := ''1770978740'',
                                     datetime := ''2026-02-15T18:00:00''\<rparr>)
                  [''- [00:01.7 '' @ arrow @ '' 00:05.0] Hello world.''] clock_a))
          (commit_message basic_library
             (sample_recording\<lparr>source_dir := ''1770978740'', datetime := ''2026-02-15T18:00:00''\<rparr>)
             \<lparr>year = 2026, month = 2, day = 15, hour = 18, minute = 0, second = 0,
               microsecond = 0, tzoffset = None\<rparr>)
          ''abc123'',
        MarkArchived ''1770978740'' ''2026/02/2026-02-15-18-00-00.md'' (Some ''abc123''),
        Push, RunRecorded 5 1 3]"
proof -
  have c: "count_where success example_results = 1"
    "count_where (\<lambda>r. \<not> success r) example_results = 3"
    "list_ex success example_results"
    by (simp_all add: count_where_def example_results_def)
  have n: "length example_recordings = 5" by (simp add: example_recordings_def)
  have y: "pad_year basic_library" by (simp add: basic_library_def)
  have rs: "\<And>w. resolve_since example_env w True None = Inr None"
    by (simp add: resolve_since_def)
  obtain o3 w3 where l: "archive_loop example_env False example_recordings [] 0
      (example_world\<lparr>state_db := Some (tables example_world), trace := [InitDb, Pull]\<rparr>) = (o3, w3)"
    by (cases "archive_loop example_env False example_recordings [] 0
      (example_world\<lparr>state_db := Some (tables example_world), trace := [InitDb, Pull]\<rparr>)")
  have o3: "o3 = Inr (example_results, 1)"
  proof -
    from archive_loop_expected [OF example_distinct, of False "[]" 0
        "example_world\<lparr>state_db := Some (tables example_world), trace := [InitDb, Pull]\<rparr>"]
    have "o3 = Inr (expected example_env False (git_calls example_world)
                  [r \<leftarrow> example_recordings. \<not> archived example_world (source_dir r)],
               length [r \<leftarrow> example_recordings. archived example_world (source_dir r)])"
      unfolding l by (simp add: archived_def tables_def)
    moreover have "git_calls example_world = 0" by (simp add: example_world_def)
    ultimately show ?thesis by (simp add: example_expected example_pending(2))
  qed
  have t: "trace w3 = [InitDb, Pull,
        Commit ''2026/02/2026-02-15-18-00-00.md''
          (join nl (frontmatter_parts clock_a
             (sample_recording\<lparr>source_dir := ''1770978740'', datetime := ''2026-02-15T18:00:00''\<rparr>))
           @ nl
           @ join nl
               (body_parts basic_library
                  \<lparr>year = 2026, month = 2, day = 15, hour = 18, minute = 0, second = 0,
                    microsecond = 0, tzoffset = None\<rparr>
                  (sample_recording\<lparr>source_dir := ''1770978740'',
                                     datetime := ''2026-02-15T18:00:00''\<rparr>)
                  [''- [00:01.7 '' @ arrow @ '' 00:05.0] Hello world.''] clock_a))
          (commit_message basic_library
             (sample_recording\<lparr>source_dir := ''1770978740'', datetime := ''2026-02-15T18:00:00''\<rparr>)
             \<lparr>year = 2026, month = 2, day = 15, hour = 18, minute = 0, second = 0,
               microsecond = 0, tzoffset = None\<rparr>)
          ''abc123'',
        MarkArchived ''1770978740'' ''2026/02/2026-02-15-18-00-00.md'' (Some ''abc123'')]"
    using l [symmetric] y
    by (simp add: example_recordings_def is_archived_def tables_def example_world_def
        example_env_fields archive_recording_raises example_format_errors
        archive_recording_formatted example_timestamps example_parsed sample_lines
        write_and_commit_def mark_archived_def Let_def path_text_def year_text_def
        four_digits_def two_digits_def digit_char_def)
  have sc: "scan basic_library (recordings_root example_env) (resolve_modes example_cfg None)
      (filters_min_duration_ms example_cfg) None = Inr example_recordings"
    using example_scan by (simp add: example_env_fields)
  show ?thesis
    unfolding run_archiver_unfold example_start
    by (simp add: rs sc l o3 n c end_run_def push_to_remote_def update_last_run_def
        example_env_fields Let_def t)
qed

text \<open>
  The example run adds six events; the one mark stands directly after the commit of its
  own file, and cutting the trace anywhere leaves every mark after its commit.
\<close>

theorem mark_after_commit_witness:
  "\<exists>evs. trace (snd (run_archiver example_env example_cfg example_world False True None None))
            = trace example_world @ evs
         \<and> length evs = 6
         \<and> evs ! 3 = MarkArchived ''1770978740'' ''2026/02/2026-02-15-18-00-00.md''
                        (Some ''abc123'')
         \<and> (\<forall>n. marks_follow_commits (take n evs))
         \<and> committed_rows example_world
              (snd (run_archiver example_env example_cfg example_world False True None None))"
proof -
  let ?r = "run_archiver example_env example_cfg example_world False True None None"
  have "?r = (fst ?r, snd ?r)" by simp
  from mark_after_commit [OF this] obtain evs where
    e: "trace (snd ?r) = trace example_world @ evs"
    "\<forall>n. marks_follow_commits (take n evs)" "committed_rows example_world (snd ?r)"
    by blast
  from e(1) have "evs = trace (snd ?r)" by (simp add: example_world_def)
  then have "length evs = 6"
    "evs ! 3 = MarkArchived ''1770978740'' ''2026/02/2026-02-15-18-00-00.md'' (Some ''abc123'')"
    by (simp_all add: example_trace)
  with e show ?thesis by blast
qed

subsection \<open>The example dry runs\<close>

lemma example_dry_summary:
  "fst (run_archiver example_env example_cfg example_world True True None None)
     = Inr \<lparr>total_recordings = 5, archived_count = 2, failed_count = 2, skipped_count = 1,
            results = example_dry_results\<rparr>"
proof -
  have c: "count_where success example_dry_results = 2"
    "count_where (\<lambda>r. \<not> success r) example_dry_results = 2"
    by (simp_all add: count_where_def example_dry_results_def)
  have g: "git_calls example_world = 0" by (simp add: example_world_def)
  have n: "length example_recordings = 5" by (simp add: example_recordings_def)
  have "fst (run_archiver example_env example_cfg example_world True True None None)
      = Inr (summary_of (length example_recordings)
               (expected example_env True (git_calls example_world)
                  [r \<leftarrow> example_recordings. \<not> archived example_world (source_dir r)])
               (length [r \<leftarrow> example_recordings. archived example_world (source_dir r)]))"
  proof (rule run_archiver_smooth [where since = None])
    show "\<not> store_fails example_env OpInit" "repo_valid example_env"
      "True \<or> sync_raises example_env = None \<and> push_raises example_env = None
                    \<and> \<not> store_fails example_env OpUpdateLastRun"
      "resolve_since example_env example_world True None = Inr None"
      by (simp_all add: example_env_fields resolve_since_def)
  qed (rule example_scan example_distinct)+
  then show ?thesis
    by (simp add: g n example_dry_expected example_pending(2) summary_of_def c)
qed

text \<open>
  A dry run on the example: the store, which exists, keeps its row; nothing is committed;
  the four recordings not yet archived get their results, two with paths and two failures.
\<close>

theorem dry_run_effects_witness:
  "\<not> store_fails example_env OpInit
   \<and> trace (snd (run_archiver example_env example_cfg example_world True True None None))
     = trace example_world @ [InitDb]
   \<and> state_db (snd (run_archiver example_env example_cfg example_world True True None None))
     = state_db example_world
   \<and> commits (snd (run_archiver example_env example_cfg example_world True True None None)) = []
   \<and> fst (run_archiver example_env example_cfg example_world True True None None)
     = Inr \<lparr>total_recordings = 5, archived_count = 2, failed_count = 2, skipped_count = 1,
            results = example_dry_results\<rparr>"
proof -
  let ?r = "run_archiver example_env example_cfg example_world True True None None"
  have f: "\<not> store_fails example_env OpInit" by (simp add: example_env_fields)
  have "?r = (fst ?r, snd ?r)" by simp
  from dry_run_effects [OF this] f
  have "trace (snd ?r) = trace example_world @ [InitDb]"
    "state_db (snd ?r) = Some (tables example_world)"
    "commits (snd ?r) = commits example_world"
    by simp_all
  then show ?thesis
    using example_dry_summary f by (simp add: tables_def example_world_def)
qed

text \<open>
  Claim C6 as stated fails: on a machine where the state store does not exist yet, a dry
  run over one recording whose timestamp does not parse leaves the store created, and
  its one result record holds an error and no path.
\<close>

theorem dry_run_creates_store:
  "state_db fresh_world = None
   \<and> state_db (snd (run_archiver lone_env example_cfg fresh_world True False None None))
     = Some empty_db
   \<and> fst (run_archiver lone_env example_cfg fresh_world True False None None)
     = Inr \<lparr>total_recordings = 1, archived_count = 0, failed_count = 1, skipped_count = 0,
            results = [\<lparr>success = False, res_source_dir = ''1770978720'',
                        error = Some ValueError, file_path = None, commit_sha = None\<rparr>]\<rparr>"
proof -
  let ?rec = "sample_recording\<lparr>source_dir := ''1770978720'', datetime := ''yesterday''\<rparr>"
  let ?w1 = "\<lparr>state_db = Some empty_db, commits = [], git_calls = 0, ticks = 0,
              trace = [InitDb]\<rparr>"
  have f: "library lone_env = basic_library" "format_timestamp lone_env = print_offset"
    "repo_valid lone_env" "store_fails lone_env = (\<lambda>op. False)"
    "recordings_root lone_env = Directory [(''1770978720'',
        DirMeta (sample_recording\<lparr>datetime := ''yesterday''\<rparr>))]"
    by (simp_all add: lone_env_def example_env_def)
  have 0: "start_run lone_env True fresh_world = (None, ?w1)"
    by (simp add: start_run_def init_db_def f tables_def fresh_world_def)
  have 1: "resolve_since lone_env ?w1 False None = Inr None"
    by (simp add: resolve_since_def get_last_run_timestamp_def tables_def empty_db_def f)
  have 3: "scan (library lone_env) (recordings_root lone_env) (resolve_modes example_cfg None)
             (filters_min_duration_ms example_cfg) None = Inr [?rec]"
    unfolding f
    by (simp add: scan_def example_cfg_def resolve_modes_def
        load_recordings_def sample_recording_def example_lower)
  have e: "format_error lone_env ?rec = Some ValueError"
    by (simp add: format_error_def f example_timestamps)
  have l: "archive_loop lone_env True [?rec] [] 0 ?w1
      = (Inr ([\<lparr>success = False, res_source_dir = ''1770978720'', error = Some ValueError,
           file_path = None, commit_sha = None\<rparr>], 0),
         \<lparr>state_db = Some empty_db, commits = [], git_calls = 0, ticks = 1,
          trace = [InitDb]\<rparr>)"
    by (simp add: is_archived_def f tables_def empty_db_def archive_recording_raises [OF e]
        failure_def)
  have r: "run_archiver lone_env example_cfg fresh_world True False None None
      = (case end_run lone_env True (length [?rec])
                [\<lparr>success = False, res_source_dir = ''1770978720'', error = Some ValueError,
                  file_path = None, commit_sha = None\<rparr>]
                \<lparr>state_db = Some empty_db, commits = [], git_calls = 0, ticks = 1,
                  trace = [InitDb]\<rparr> of
           (Some e, w) \<Rightarrow> (Inl e, w)
         | (None, w5) \<Rightarrow>
             (Inr (summary_of (length [?rec])
                     [\<lparr>success = False, res_source_dir = ''1770978720'',
                       error = Some ValueError, file_path = None, commit_sha = None\<rparr>] 0),
              w5))"
    by (simp only: run_archiver_unfold 0 1 3 l prod.case option.case sum.case)
  have "state_db fresh_world = None" by (simp add: fresh_world_def)
  then show ?thesis
    unfolding r by (simp add: summary_of_def count_where_def end_run_def)
qed

end
